theory Spec2Isabelle
  imports Complex_Main "HOL-Library.Char_ord" "HOL-Library.List_Lexorder"
begin

section \<open>Text: characters and the string methods the scripts call\<close>

text \<open>
  The scripts \<^verbatim>\<open>fetch-ukpacket-nodes.py\<close> and \<^verbatim>\<open>discover-ukpacket-data-endpoint.py\<close>
  work on Python \<^verbatim>\<open>str\<close> values. A string is modelled as a \<open>string\<close> of ASCII
  characters: the classes below are the ASCII part of what Python's \<^verbatim>\<open>str.isspace\<close>,
  \<^verbatim>\<open>\d\<close>, \<^verbatim>\<open>\w\<close>, \<^verbatim>\<open>str.lower\<close> and \<^verbatim>\<open>str.upper\<close> accept; a character
  with a code above 127 belongs to none of them.
\<close>

definition is_digit :: "char \<Rightarrow> bool" where
  "is_digit c = (c \<in> set ''0123456789'')"

text \<open>Python's whitespace in ASCII: tab, line feed, vertical tab, form feed, carriage
  return, the four separators 0x1C to 0x1F, and the space.\<close>

definition is_space :: "char \<Rightarrow> bool" where
  "is_space c = (c \<in> set [CHR 0x09, CHR 0x0A, CHR 0x0B, CHR 0x0C, CHR 0x0D,
                              CHR 0x1C, CHR 0x1D, CHR 0x1E, CHR 0x1F, CHR '' ''])"

definition upper_letters :: string where
  "upper_letters = ''ABCDEFGHIJKLMNOPQRSTUVWXYZ''"

definition lower_letters :: string where
  "lower_letters = ''abcdefghijklmnopqrstuvwxyz''"

definition is_word :: "char \<Rightarrow> bool" where
  "is_word c = (c \<in> set upper_letters \<or> c \<in> set lower_letters \<or> is_digit c \<or> c = CHR ''_'')"

definition lower_char :: "char \<Rightarrow> char" where
  "lower_char c = (case map_of (zip upper_letters lower_letters) c of Some d \<Rightarrow> d | None \<Rightarrow> c)"

definition upper_char :: "char \<Rightarrow> char" where
  "upper_char c = (case map_of (zip lower_letters upper_letters) c of Some d \<Rightarrow> d | None \<Rightarrow> c)"

definition lower :: "string \<Rightarrow> string" where
  "lower s = map lower_char s"

definition upper :: "string \<Rightarrow> string" where
  "upper s = map upper_char s"

definition lstrip :: "string \<Rightarrow> string" where
  "lstrip s = dropWhile is_space s"

definition rstrip :: "string \<Rightarrow> string" where
  "rstrip s = rev (dropWhile is_space (rev s))"

definition strip :: "string \<Rightarrow> string" where
  "strip s = rstrip (lstrip s)"

text \<open>\<^verbatim>\<open>s.rstrip(c)\<close> and \<^verbatim>\<open>s.lstrip(c)\<close> for a one-character argument.\<close>

definition rstrip_char :: "char \<Rightarrow> string \<Rightarrow> string" where
  "rstrip_char c s = rev (dropWhile (\<lambda>x. x = c) (rev s))"

definition lstrip_char :: "char \<Rightarrow> string \<Rightarrow> string" where
  "lstrip_char c s = dropWhile (\<lambda>x. x = c) s"

definition startswith :: "string \<Rightarrow> string \<Rightarrow> bool" where
  "startswith s p = (take (length p) s = p)"

text \<open>\<^verbatim>\<open>s.replace(old, new)\<close> for a non-empty \<open>old\<close>: the occurrences are replaced from
  left to right and do not overlap.\<close>

fun replace :: "string \<Rightarrow> string \<Rightarrow> string \<Rightarrow> string" where
  "replace old new [] = []"
| "replace old new (c # cs) =
     (if old \<noteq> [] \<and> startswith (c # cs) old
      then new @ replace old new (drop (length old) (c # cs))
      else c # replace old new cs)"

text \<open>\<^verbatim>\<open>sub in s\<close> on strings.\<close>

fun contains :: "string \<Rightarrow> string \<Rightarrow> bool" where
  "contains [] sub = (sub = [])"
| "contains (c # cs) sub = (startswith (c # cs) sub \<or> contains cs sub)"

fun join :: "string \<Rightarrow> string list \<Rightarrow> string" where
  "join sep [] = []"
| "join sep [x] = x"
| "join sep (x # y # ys) = x @ sep @ join sep (y # ys)"

section \<open>Regular expressions\<close>

text \<open>
  The patterns of the scripts use literals, character classes, greedy repetition of a
  class, alternation, groups and the word boundary \<^verbatim>\<open>\b\<close>. \<open>rx\<close> is that fragment of the
  syntax of Python's \<^verbatim>\<open>re\<close>. \<open>Rep P lo hi\<close> is \<^verbatim>\<open>P{lo,hi}\<close> (\<open>hi = None\<close> is no upper
  bound, so \<^verbatim>\<open>P*\<close> is \<open>Rep P 0 None\<close> and \<^verbatim>\<open>P+\<close> is \<open>Rep P 1 None\<close>); \<open>Grp n r\<close>
  is the n-th capturing group.
\<close>

datatype rx =
    Chr char
  | Cls "char \<Rightarrow> bool"
  | Rep "char \<Rightarrow> bool" nat "nat option"
  | WordB
  | Seq rx rx
  | Alt rx rx
  | Grp nat rx

type_synonym caps = "(nat \<times> nat \<times> nat) list"

text \<open>
  \<open>rx_match ic s r (i, g)\<close> lists the ways \<open>r\<close> matches in \<open>s\<close> from index \<open>i\<close>, each the
  index where the match ends with the groups captured so far, in the order in which
  Python's backtracking matcher tries them: the longer repetition first, the left branch
  of an alternation first. The head of the list is the match Python reports. \<open>ic\<close> is
  the flag \<^verbatim>\<open>re.I\<close>.
\<close>

definition at_boundary :: "string \<Rightarrow> nat \<Rightarrow> bool" where
  "at_boundary s i =
     ((0 < i \<and> i \<le> length s \<and> is_word (s ! (i - 1))) \<noteq> (i < length s \<and> is_word (s ! i)))"

definition run_length :: "(char \<Rightarrow> bool) \<Rightarrow> string \<Rightarrow> nat \<Rightarrow> nat" where
  "run_length P s i = length (takeWhile P (drop i s))"

fun rx_match :: "bool \<Rightarrow> string \<Rightarrow> rx \<Rightarrow> nat \<times> caps \<Rightarrow> (nat \<times> caps) list" where
  "rx_match ic s (Chr c) (i, g) =
     (if i < length s \<and> (if ic then lower_char (s ! i) = lower_char c else s ! i = c)
      then [(Suc i, g)] else [])"
| "rx_match ic s (Cls P) (i, g) = (if i < length s \<and> P (s ! i) then [(Suc i, g)] else [])"
| "rx_match ic s (Rep P lo hi) (i, g) =
     (let k = (case hi of None \<Rightarrow> run_length P s i | Some h \<Rightarrow> min h (run_length P s i))
      in map (\<lambda>j. (i + j, g)) (rev [lo..<Suc k]))"
| "rx_match ic s WordB (i, g) = (if at_boundary s i then [(i, g)] else [])"
| "rx_match ic s (Seq a b) (i, g) = concat (map (rx_match ic s b) (rx_match ic s a (i, g)))"
| "rx_match ic s (Alt a b) (i, g) = rx_match ic s a (i, g) @ rx_match ic s b (i, g)"
| "rx_match ic s (Grp n r) (i, g) = map (\<lambda>(e, g'). (e, (n, i, e) # g')) (rx_match ic s r (i, g))"

text \<open>A match object: \<^verbatim>\<open>m.start()\<close>, \<^verbatim>\<open>m.end()\<close> and the spans of its groups.\<close>

record rmatch =
  m_start :: nat
  m_end :: nat
  m_caps :: caps

definition span :: "string \<Rightarrow> nat \<Rightarrow> nat \<Rightarrow> string" where
  "span s i e = take (e - i) (drop i s)"

text \<open>\<^verbatim>\<open>m.group(0)\<close> and \<^verbatim>\<open>m.group(n)\<close>; a group that took no part in the match is
  not asked for by the scripts and reads as the empty string here.\<close>

definition group0 :: "string \<Rightarrow> rmatch \<Rightarrow> string" where
  "group0 s m = span s (m_start m) (m_end m)"

definition group :: "string \<Rightarrow> rmatch \<Rightarrow> nat \<Rightarrow> string" where
  "group s m n = (case map_of (m_caps m) n of Some (i, e) \<Rightarrow> span s i e | None \<Rightarrow> [])"

text \<open>
  \<^verbatim>\<open>re.finditer\<close>: the start indices are tried from left to right; the first way of
  matching at the leftmost index that matches is a match, and the scan goes on where it
  ended. None of the scripts' patterns matches the empty string; for one that did, the
  scan here goes on one character further.
\<close>

fun rx_scan :: "bool \<Rightarrow> string \<Rightarrow> rx \<Rightarrow> nat list \<Rightarrow> nat \<Rightarrow> rmatch list" where
  "rx_scan ic s r [] nxt = []"
| "rx_scan ic s r (p # ps) nxt =
     (if p < nxt then rx_scan ic s r ps nxt
      else (case rx_match ic s r (p, []) of
              [] \<Rightarrow> rx_scan ic s r ps nxt
            | (e, g) # _ \<Rightarrow>
                \<lparr>m_start = p, m_end = e, m_caps = g\<rparr> # rx_scan ic s r ps (max e (Suc p))))"

definition finditer :: "bool \<Rightarrow> rx \<Rightarrow> string \<Rightarrow> rmatch list" where
  "finditer ic r s = rx_scan ic s r [0..<Suc (length s)] 0"

text \<open>\<^verbatim>\<open>re.search\<close>: the first match of the scan, or \<open>None\<close>.\<close>

definition search :: "bool \<Rightarrow> rx \<Rightarrow> string \<Rightarrow> rmatch option" where
  "search ic r s = (case finditer ic r s of [] \<Rightarrow> None | m # _ \<Rightarrow> Some m)"

text \<open>\<^verbatim>\<open>re.findall\<close> for a pattern without groups: the matched texts.\<close>

definition findall :: "bool \<Rightarrow> rx \<Rightarrow> string \<Rightarrow> string list" where
  "findall ic r s = map (group0 s) (finditer ic r s)"

text \<open>The texts between the matches: what \<^verbatim>\<open>re.split\<close> returns for a pattern without
  groups, and what \<^verbatim>\<open>re.sub\<close> keeps.\<close>

fun pieces :: "string \<Rightarrow> nat \<Rightarrow> rmatch list \<Rightarrow> string list" where
  "pieces s i [] = [drop i s]"
| "pieces s i (m # ms) = span s i (m_start m) # pieces s (m_end m) ms"

definition re_split :: "bool \<Rightarrow> rx \<Rightarrow> string \<Rightarrow> string list" where
  "re_split ic r s = pieces s 0 (finditer ic r s)"

definition re_sub :: "bool \<Rightarrow> rx \<Rightarrow> string \<Rightarrow> string \<Rightarrow> string" where
  "re_sub ic r repl s = join repl (pieces s 0 (finditer ic r s))"

text \<open>A literal word of a pattern, and the alternation of several patterns.\<close>

fun lit :: "string \<Rightarrow> rx" where
  "lit [] = Rep (\<lambda>c. False) 0 (Some 0)"
| "lit [c] = Chr c"
| "lit (c # cs) = Seq (Chr c) (lit cs)"

fun alts :: "rx list \<Rightarrow> rx" where
  "alts [] = Cls (\<lambda>c. False)"
| "alts [r] = r"
| "alts (r # rs) = Alt r (alts rs)"

fun seqs :: "rx list \<Rightarrow> rx" where
  "seqs [] = Rep (\<lambda>c. False) 0 (Some 0)"
| "seqs [r] = r"
| "seqs (r # rs) = Seq r (seqs rs)"

section \<open>Numbers\<close>

subsection \<open>Integers and their decimal digits\<close>

definition digit_val :: "char \<Rightarrow> int" where
  "digit_val c = int (length (takeWhile (\<lambda>d. d \<noteq> c) ''0123456789''))"

definition digit_char :: "int \<Rightarrow> char" where
  "digit_char d = ''0123456789'' ! nat d"

text \<open>\<^verbatim>\<open>int(s)\<close> on a string of decimal digits, the only strings the scripts pass to it.\<close>

definition int_of_digits :: "string \<Rightarrow> int" where
  "int_of_digits s = foldl (\<lambda>a c. 10 * a + digit_val c) 0 s"

text \<open>\<^verbatim>\<open>str(n)\<close> for an integer.\<close>

function str_nat :: "int \<Rightarrow> string" where
  "str_nat n = (if n < 10 then [digit_char n] else str_nat (n div 10) @ [digit_char (n mod 10)])"
  by pat_completeness auto
termination
  by (relation "measure nat") auto

declare str_nat.simps [simp del]

definition str_int :: "int \<Rightarrow> string" where
  "str_int n = (if n < 0 then CHR ''-'' # str_nat (- n) else str_nat n)"

subsection \<open>Floats\<close>

text \<open>
  A Python \<^verbatim>\<open>float\<close> is an IEEE 754 double: a finite double is modelled by the rational
  number it stands for, next to the two infinities and NaN. (The sign of zero is not
  kept: the scripts never look at it.) \<open>to_double\<close> rounds a rational to the nearest
  double, ties to the even significand, as the conversion of a decimal string, of an
  integer and the division of two doubles do: a double has a significand of 53 bits, the
  exponent of its last bit is at least \<open>- 1074\<close>, and a result of \<open>2 ^ 1024\<close> or more is
  an infinity.
\<close>

datatype pyfloat = Fin rat | PInf | NInf | NaN

text \<open>The number of binary digits of a positive integer.\<close>

function bitlen :: "int \<Rightarrow> int" where
  "bitlen n = (if n \<le> 0 then 0 else 1 + bitlen (n div 2))"
  by pat_completeness auto
termination
  by (relation "measure nat") auto

declare bitlen.simps [simp del]

definition pow2 :: "int \<Rightarrow> rat" where
  "pow2 e = (if 0 \<le> e then 2 ^ nat e else 1 / 2 ^ nat (- e))"

definition pow10 :: "int \<Rightarrow> rat" where
  "pow10 e = (if 0 \<le> e then 10 ^ nat e else 1 / 10 ^ nat (- e))"

text \<open>For \<open>0 < q\<close>, the integer \<open>e\<close> with \<open>2 ^ e \<le> q < 2 ^ (e + 1)\<close>.\<close>

definition floor_log2 :: "rat \<Rightarrow> int" where
  "floor_log2 q =
     (if 1 \<le> q then bitlen \<lfloor>q\<rfloor> - 1
      else (let n = bitlen \<lfloor>1 / q\<rfloor>
            in if 1 \<le> q * pow2 (n - 1) then - (n - 1) else - n))"

definition round_half_even :: "rat \<Rightarrow> int" where
  "round_half_even q =
     (let f = \<lfloor>q\<rfloor>; r = q - of_int f
      in if r < 1 / 2 then f else if 1 / 2 < r then f + 1 else if even f then f else f + 1)"

definition to_double :: "rat \<Rightarrow> pyfloat" where
  "to_double q =
     (if q = 0 then Fin 0
      else (let a = \<bar>q\<bar>;
                e = max (floor_log2 a) (- 1022);
                u = pow2 (e - 52);
                m = round_half_even (a / u)
            in if 1024 \<le> e \<or> (e = 1023 \<and> m = 2 ^ 53) then (if q < 0 then NInf else PInf)
               else Fin (if q < 0 then - (of_int m * u) else of_int m * u)))"

text \<open>
  \<^verbatim>\<open>float(s)\<close> for a string: white space around it is dropped (here the six characters
  of C's \<^verbatim>\<open>isspace\<close>, not the separators 0x1C to 0x1F), then comes an optional sign and
  either \<^verbatim>\<open>inf\<close>, \<^verbatim>\<open>infinity\<close> or \<^verbatim>\<open>nan\<close> in any case, or digits with an optional
  point and an optional exponent; single underscores may stand between digits. \<open>None\<close>
  is the \<^verbatim>\<open>ValueError\<close>.
\<close>

definition is_cspace :: "char \<Rightarrow> bool" where
  "is_cspace c = (c \<in> set [CHR 0x09, CHR 0x0A, CHR 0x0B, CHR 0x0C, CHR 0x0D, CHR '' ''])"

definition cstrip :: "string \<Rightarrow> string" where
  "cstrip s = rev (dropWhile is_cspace (rev (dropWhile is_cspace s)))"

fun digit_run :: "string \<Rightarrow> string \<times> string" where
  "digit_run [] = ([], [])"
| "digit_run (c # cs) =
     (if is_digit c then (case digit_run cs of (d, r) \<Rightarrow> (c # d, r))
      else if c = CHR ''_'' \<and> cs \<noteq> [] \<and> is_digit (hd cs) then digit_run cs
      else ([], c # cs))"

definition digit_part :: "string \<Rightarrow> (string \<times> string) option" where
  "digit_part s = (if s \<noteq> [] \<and> is_digit (hd s) then Some (digit_run s) else None)"

definition float_number :: "string \<Rightarrow> (string \<times> string \<times> string) option" where
  "float_number u =
     (case digit_part u of
        Some (ip, r) \<Rightarrow>
          (if startswith r ''.''
           then (case digit_part (tl r) of
                   Some (fp, r') \<Rightarrow> Some (ip, fp, r')
                 | None \<Rightarrow> Some (ip, [], tl r))
           else Some (ip, [], r))
      | None \<Rightarrow>
          (if startswith u ''.''
           then (case digit_part (tl u) of
                   Some (fp, r') \<Rightarrow> Some ([], fp, r')
                 | None \<Rightarrow> None)
           else None))"

definition split_sign :: "string \<Rightarrow> bool \<times> string" where
  "split_sign t =
     (if startswith t ''-'' then (True, tl t)
      else if startswith t ''+'' then (False, tl t)
      else (False, t))"

definition float_exponent :: "string \<Rightarrow> int option" where
  "float_exponent r =
     (if r = [] then Some 0
      else if hd r = CHR ''e'' \<or> hd r = CHR ''E''
      then (case split_sign (tl r) of
              (neg, d) \<Rightarrow>
                (case digit_part d of
                   Some (ds, []) \<Rightarrow>
                     Some (if neg then - int_of_digits ds else int_of_digits ds)
                 | _ \<Rightarrow> None))
      else None)"

definition decimal :: "string \<Rightarrow> string \<Rightarrow> rat" where
  "decimal ip fp = of_int (int_of_digits ip) + of_int (int_of_digits fp) / 10 ^ length fp"

definition float_of_str :: "string \<Rightarrow> pyfloat option" where
  "float_of_str s =
     (case split_sign (cstrip s) of
        (neg, u) \<Rightarrow>
          (if lower u = ''inf'' \<or> lower u = ''infinity'' then Some (if neg then NInf else PInf)
           else if lower u = ''nan'' then Some NaN
           else (case float_number u of
                   None \<Rightarrow> None
                 | Some (ip, fp, r) \<Rightarrow>
                     (case float_exponent r of
                        None \<Rightarrow> None
                      | Some ex \<Rightarrow>
                          Some (to_double ((if neg then - 1 else 1) * decimal ip fp * pow10 ex))))))"

text \<open>\<^verbatim>\<open>v / 1000.0\<close>.\<close>

definition div_1000 :: "pyfloat \<Rightarrow> pyfloat" where
  "div_1000 v = (case v of Fin q \<Rightarrow> to_double (q / 1000) | _ \<Rightarrow> v)"

text \<open>\<^verbatim>\<open>0.5 <= v <= 500.0\<close>: false for NaN and the infinities.\<close>

definition in_band :: "pyfloat \<Rightarrow> bool" where
  "in_band v = (case v of Fin q \<Rightarrow> 1 / 2 \<le> q \<and> q \<le> 500 | _ \<Rightarrow> False)"

text \<open>
  \<^verbatim>\<open>f"{v:.6f}"\<close>: the double rounded to six decimals (ties of its exact value to even),
  written with all six.
\<close>

definition pad6 :: "string \<Rightarrow> string" where
  "pad6 s = replicate (6 - length s) CHR ''0'' @ s"

definition format_6f :: "pyfloat \<Rightarrow> string" where
  "format_6f v =
     (case v of
        Fin q \<Rightarrow>
          (let n = round_half_even (\<bar>q\<bar> * 1000000)
           in (if q < 0 then ''-'' else []) @
              str_nat (n div 1000000) @ ''.'' @ pad6 (str_nat (n mod 1000000)))
      | PInf \<Rightarrow> ''inf''
      | NInf \<Rightarrow> ''-inf''
      | NaN \<Rightarrow> ''nan'')"

section \<open>The channel extractor of \<^verbatim>\<open>fetch-ukpacket-nodes.py\<close>\<close>

text \<open>\<^verbatim>\<open>_fmt_mhz\<close>: up to six decimals, trailing zeros and a trailing point dropped.\<close>

definition fmt_mhz :: "pyfloat \<Rightarrow> string" where
  "fmt_mhz v = rstrip_char CHR ''.'' (rstrip_char CHR ''0'' (format_6f v))"

text \<open>\<^verbatim>\<open>_to_mhz_str(raw_num, unit)\<close>; \<open>unit = None\<close> is Python's \<^verbatim>\<open>None\<close>, and so is the
  result \<open>None\<close>.\<close>

definition to_mhz_str :: "string \<Rightarrow> string option \<Rightarrow> string option" where
  "to_mhz_str raw_num unit =
     (if raw_num = [] then None
      else (case float_of_str (replace '','' ''.'' (strip raw_num)) of
              None \<Rightarrow> None
            | Some v0 \<Rightarrow>
                (let u = strip (lower (case unit of None \<Rightarrow> [] | Some x \<Rightarrow> x));
                     v = (if u = ''khz'' then div_1000 v0 else v0)
                 in if \<not> in_band v then None else Some (fmt_mhz v))))"

text \<open>\<^verbatim>\<open>_strip_html\<close>: tags \<^verbatim>\<open><[^>]+>\<close> become a space, runs of white space \<^verbatim>\<open>\s+\<close>
  become one space, and the ends are stripped.\<close>

definition tag_rx :: rx where
  "tag_rx = seqs [Chr CHR ''<'', Rep (\<lambda>c. c \<noteq> CHR ''>'') 1 None, Chr CHR ''>'']"

definition spaces_rx :: rx where
  "spaces_rx = Rep is_space 1 None"

definition strip_html :: "string \<Rightarrow> string" where
  "strip_html html =
     (if html = [] then []
      else strip (re_sub False spaces_rx '' '' (re_sub False tag_rx '' '' html)))"

text \<open>The patterns of \<^verbatim>\<open>_extract_channels\<close>, in the order of the source:
  \<^verbatim>\<open>\bport\b|\s-\s|\|\<close>,
  \<^verbatim>\<open>\b(\d{2,5})\s*(?:baud|bd|bps|b/s)\b\<close>,
  \<^verbatim>\<open>\b(\d{1,2})k(\d)\b\<close>,
  \<^verbatim>\<open>\b(\d{1,5}[\.,]\d{1,6})\s*(mhz|khz)\b\<close>,
  \<^verbatim>\<open>\b(?:afsk|fsk|bpsk|qpsk|il2p|fx25|ax25|aprs|vara|ardop|fm|usb|lsb|vhf|uhf|hf)\b\<close> and
  \<^verbatim>\<open>\b(\d{1,3}[\.,]\d{1,6})\b\<close>.\<close>

definition split_rx :: rx where
  "split_rx =
     alts [seqs [WordB, lit ''port'', WordB],
           seqs [Cls is_space, Chr CHR ''-'', Cls is_space],
           Chr CHR ''|'']"

definition baud_rx :: rx where
  "baud_rx =
     seqs [WordB, Grp 1 (Rep is_digit 2 (Some 5)), Rep is_space 0 None,
           alts [lit ''baud'', lit ''bd'', lit ''bps'', lit ''b/s''], WordB]"

definition kbaud_rx :: rx where
  "kbaud_rx = seqs [WordB, Grp 1 (Rep is_digit 1 (Some 2)), Chr CHR ''k'', Grp 2 (Cls is_digit), WordB]"

definition is_point :: "char \<Rightarrow> bool" where
  "is_point c = (c = CHR ''.'' \<or> c = CHR '','')"

definition unit_freq_rx :: rx where
  "unit_freq_rx =
     seqs [WordB,
           Grp 1 (seqs [Rep is_digit 1 (Some 5), Cls is_point, Rep is_digit 1 (Some 6)]),
           Rep is_space 0 None,
           Grp 2 (alts [lit ''mhz'', lit ''khz'']),
           WordB]"

definition context_words :: "string list" where
  "context_words =
     [''afsk'', ''fsk'', ''bpsk'', ''qpsk'', ''il2p'', ''fx25'', ''ax25'', ''aprs'', ''vara'',
      ''ardop'', ''fm'', ''usb'', ''lsb'', ''vhf'', ''uhf'', ''hf'']"

definition context_rx :: rx where
  "context_rx = seqs [WordB, alts (map lit context_words), WordB]"

definition bare_freq_rx :: rx where
  "bare_freq_rx =
     seqs [WordB,
           Grp 1 (seqs [Rep is_digit 1 (Some 3), Cls is_point, Rep is_digit 1 (Some 6)]),
           WordB]"

text \<open>A channel is the dictionary with the keys \<^verbatim>\<open>freq\<close>, \<^verbatim>\<open>baud\<close> and \<^verbatim>\<open>raw\<close>.\<close>

record channel =
  freq :: string
  baud :: string
  raw :: string

text \<open>The local helper \<^verbatim>\<open>_baud_in(chunk)\<close>.\<close>

definition baud_in :: "string \<Rightarrow> string" where
  "baud_in chunk =
     (case search True baud_rx chunk of
        Some m \<Rightarrow> group chunk m 1
      | None \<Rightarrow>
          (case search True kbaud_rx chunk of
             Some mk \<Rightarrow>
               str_int (int_of_digits (group chunk mk 1) * 1000 + int_of_digits (group chunk mk 2) * 100)
           | None \<Rightarrow> []))"

text \<open>The loop over the matches with a unit: each appends to \<open>channels\<close> unless
  \<^verbatim>\<open>_to_mhz_str\<close> gives \<^verbatim>\<open>None\<close> (or an empty string).\<close>

fun unit_loop :: "string \<Rightarrow> string \<Rightarrow> rmatch list \<Rightarrow> channel list \<Rightarrow> channel list" where
  "unit_loop ch b [] channels = channels"
| "unit_loop ch b (m # ms) channels =
     (case to_mhz_str (group ch m 1) (Some (group ch m 2)) of
        None \<Rightarrow> unit_loop ch b ms channels
      | Some mhz \<Rightarrow>
          (if mhz = [] then unit_loop ch b ms channels
           else unit_loop ch b ms (channels @ [\<lparr>freq = mhz, baud = b, raw = group0 ch m\<rparr>])))"

text \<open>The loop over the bare numbers: one that has a point right before or right after
  it is skipped.\<close>

definition before_of :: "string \<Rightarrow> rmatch \<Rightarrow> string" where
  "before_of ch m = span ch (m_start m - 1) (m_start m)"

definition after_of :: "string \<Rightarrow> rmatch \<Rightarrow> string" where
  "after_of ch m = span ch (m_end m) (min (length ch) (m_end m + 1))"

fun bare_loop :: "string \<Rightarrow> string \<Rightarrow> rmatch list \<Rightarrow> channel list \<Rightarrow> channel list" where
  "bare_loop ch b [] channels = channels"
| "bare_loop ch b (m # ms) channels =
     (if before_of ch m = ''.'' \<or> after_of ch m = ''.'' then bare_loop ch b ms channels
      else (case to_mhz_str (group ch m 1) None of
              None \<Rightarrow> bare_loop ch b ms channels
            | Some mhz \<Rightarrow>
                (if mhz = [] then bare_loop ch b ms channels
                 else bare_loop ch b ms (channels @ [\<lparr>freq = mhz, baud = b, raw = group ch m 1\<rparr>]))))"

text \<open>The body of the loop over the chunks, and the loop.\<close>

definition chunk_step :: "string \<Rightarrow> channel list \<Rightarrow> channel list" where
  "chunk_step ch channels =
     (let b = baud_in ch;
          channels1 = unit_loop ch b (finditer True unit_freq_rx ch) channels
      in if search False context_rx ch \<noteq> None
         then bare_loop ch b (finditer False bare_freq_rx ch) channels1
         else channels1)"

fun chunk_loop :: "string list \<Rightarrow> channel list \<Rightarrow> channel list" where
  "chunk_loop [] channels = channels"
| "chunk_loop (ch # chs) channels = chunk_loop chs (chunk_step ch channels)"

text \<open>
  The de-duplication loop, with its set \<open>seen\<close> and its list \<open>uniq\<close>. The script has
  this loop twice, over the channels with the key \<^verbatim>\<open>(freq, baud)\<close> and over the items
  with the key of \<^verbatim>\<open>_build_items\<close>; \<open>key\<close> is that key.
\<close>

fun dedupe_loop :: "('a \<Rightarrow> 'k) \<Rightarrow> 'a list \<Rightarrow> 'k set \<Rightarrow> 'a list \<Rightarrow> 'a list" where
  "dedupe_loop key [] seen uniq = uniq"
| "dedupe_loop key (c # cs) seen uniq =
     (if key c \<in> seen then dedupe_loop key cs seen uniq
      else dedupe_loop key cs (insert (key c) seen) (uniq @ [c]))"

definition channel_key :: "channel \<Rightarrow> string \<times> string" where
  "channel_key c = (freq c, baud c)"

text \<open>The chunks of a text, the list \<open>channels\<close> before the de-duplication, and
  \<^verbatim>\<open>_extract_channels\<close>.\<close>

definition chunks_of :: "string \<Rightarrow> string list" where
  "chunks_of display_text = re_split False split_rx (lower (strip_html display_text))"

definition found_channels :: "string \<Rightarrow> channel list" where
  "found_channels display_text = chunk_loop (chunks_of display_text) []"

definition extract_channels :: "string \<Rightarrow> channel list" where
  "extract_channels display_text = dedupe_loop channel_key (found_channels display_text) {} []"

section \<open>The item builder of \<^verbatim>\<open>fetch-ukpacket-nodes.py\<close>\<close>

text \<open>
  The points come from decoded JSON: a value is \<^verbatim>\<open>None\<close>, a \<^verbatim>\<open>bool\<close>, an \<^verbatim>\<open>int\<close>,
  a \<^verbatim>\<open>float\<close>, a \<^verbatim>\<open>str\<close>, a \<^verbatim>\<open>list\<close> or a \<^verbatim>\<open>dict\<close> with string keys (its items
  in an association list). \<open>truthy\<close> is Python's truth value, which \<^verbatim>\<open>or\<close> and \<^verbatim>\<open>not\<close>
  test.
\<close>

datatype json =
    JNull
  | JBool bool
  | JInt int
  | JFloat pyfloat
  | JStr string
  | JList "json list"
  | JDict "(string \<times> json) list"

fun truthy :: "json \<Rightarrow> bool" where
  "truthy JNull = False"
| "truthy (JBool b) = b"
| "truthy (JInt i) = (i \<noteq> 0)"
| "truthy (JFloat v) = (v \<noteq> Fin 0)"
| "truthy (JStr s) = (s \<noteq> [])"
| "truthy (JList xs) = (xs \<noteq> [])"
| "truthy (JDict d) = (d \<noteq> [])"

text \<open>\<^verbatim>\<open>a or b\<close>.\<close>

definition or_else :: "json \<Rightarrow> json \<Rightarrow> json" where
  "or_else a b = (if truthy a then a else b)"

text \<open>\<^verbatim>\<open>d.get(k)\<close> on a dictionary, and \<^verbatim>\<open>v.get(k)\<close> on any value: only a dictionary has
  the method, every other value raises \<^verbatim>\<open>AttributeError\<close>.\<close>

datatype error = AttributeError | RequestError

definition dict_get :: "(string \<times> json) list \<Rightarrow> string \<Rightarrow> json" where
  "dict_get d k = (case map_of d k of None \<Rightarrow> JNull | Some v \<Rightarrow> v)"

definition py_get :: "json \<Rightarrow> string \<Rightarrow> error + json" where
  "py_get v k = (case v of JDict d \<Rightarrow> Inr (dict_get d k) | _ \<Rightarrow> Inl AttributeError)"

text \<open>
  \<^verbatim>\<open>_as_float(v)\<close>: \<^verbatim>\<open>float(v)\<close>, with every exception and NaN turned into \<^verbatim>\<open>None\<close>.
  \<^verbatim>\<open>float\<close> raises on \<^verbatim>\<open>None\<close>, a list and a dictionary, on a string that is no float
  literal, and on an integer too large for a double.
\<close>

definition as_float :: "json \<Rightarrow> pyfloat option" where
  "as_float v =
     (case v of
        JNull \<Rightarrow> None
      | JBool b \<Rightarrow> Some (Fin (if b then 1 else 0))
      | JInt i \<Rightarrow> (case to_double (of_int i) of Fin q \<Rightarrow> Some (Fin q) | _ \<Rightarrow> None)
      | JFloat f \<Rightarrow> (if f = NaN then None else Some f)
      | JStr s \<Rightarrow>
          (case float_of_str s of
             None \<Rightarrow> None
           | Some f \<Rightarrow> (if f = NaN then None else Some f))
      | JList xs \<Rightarrow> None
      | JDict d \<Rightarrow> None)"

text \<open>
  \<^verbatim>\<open>_pick(props, *keys)\<close>. For a float it returns \<^verbatim>\<open>str(v)\<close>, the shortest decimal
  that reads back as the same double; that conversion is the parameter \<open>fs\<close> of the
  model.
\<close>

fun pick :: "(pyfloat \<Rightarrow> string) \<Rightarrow> json \<Rightarrow> string list \<Rightarrow> error + string" where
  "pick fs props [] = Inr []"
| "pick fs props (k # ks) =
     (case py_get props k of
        Inl e \<Rightarrow> Inl e
      | Inr v \<Rightarrow>
          (case v of
             JNull \<Rightarrow> pick fs props ks
           | JBool b \<Rightarrow> Inr (if b then ''True'' else ''False'')
           | JInt i \<Rightarrow> Inr (str_int i)
           | JFloat f \<Rightarrow> Inr (fs f)
           | JStr s \<Rightarrow> (if strip s \<noteq> [] then Inr (strip s) else pick fs props ks)
           | JList xs \<Rightarrow> pick fs props ks
           | JDict d \<Rightarrow> pick fs props ks))"

text \<open>\<^verbatim>\<open>_guess_type(display_text)\<close>; \<^verbatim>\<open>.lower()\<close> exists on a string only.\<close>

definition guess_type :: "json \<Rightarrow> error + string" where
  "guess_type display_text =
     (case or_else display_text (JStr []) of
        JStr t \<Rightarrow>
          (let s = lower t
           in Inr (if contains s ''bbs'' \<or> contains s ''mailbox'' then ''bbs'' else ''node''))
      | _ \<Rightarrow> Inl AttributeError)"

text \<open>\<^verbatim>\<open>_parse_freq_baud(display_text)\<close>: the channels, and as the primary pair the first
  channel with a frequency and a baud rate, else the first with a frequency.\<close>

definition parse_freq_baud :: "string \<Rightarrow> string \<times> string \<times> channel list" where
  "parse_freq_baud display_text =
     (let channels = extract_channels display_text;
          primary = (case find (\<lambda>c. freq c \<noteq> [] \<and> baud c \<noteq> []) channels of
                       Some c \<Rightarrow> Some c
                     | None \<Rightarrow> find (\<lambda>c. freq c \<noteq> []) channels)
      in ((case primary of Some c \<Rightarrow> freq c | None \<Rightarrow> []),
          (case primary of Some c \<Rightarrow> baud c | None \<Rightarrow> []),
          channels))"

text \<open>The dataclass \<^verbatim>\<open>PacketItem\<close>.\<close>

record packet_item =
  item_id :: int
  item_type :: string
  item_callsign :: string
  item_name :: string
  item_location :: string
  item_country :: string
  item_lat :: pyfloat
  item_lng :: pyfloat
  item_freq :: string
  item_baud :: string
  item_channels :: "channel list"
  item_mode :: string
  item_status :: string
  item_notes :: string

text \<open>
  The two coordinates of a point \<open>p\<close> with the properties \<open>props\<close>:
  \<^verbatim>\<open>_as_float(p.get("lat") or props.get("lat") or props.get("latitude"))\<close> and
  \<^verbatim>\<open>_as_float(p.get("lng") or props.get("lng") or props.get("lon") or props.get("longitude"))\<close>.
  \<^verbatim>\<open>or\<close> evaluates its right operand only when the left one is not truthy.
\<close>

fun first_truthy :: "json \<Rightarrow> string list \<Rightarrow> error + json" where
  "first_truthy props [] = Inr JNull"
| "first_truthy props [k] = py_get props k"
| "first_truthy props (k # ks) =
     (case py_get props k of
        Inl e \<Rightarrow> Inl e
      | Inr v \<Rightarrow> (if truthy v then Inr v else first_truthy props ks))"

definition coordinate :: "(string \<times> json) list \<Rightarrow> string \<Rightarrow> json \<Rightarrow> string list \<Rightarrow> error + pyfloat option" where
  "coordinate p own props names =
     (if truthy (dict_get p own) then Inr (as_float (dict_get p own))
      else (case first_truthy props names of
              Inl e \<Rightarrow> Inl e
            | Inr v \<Rightarrow> Inr (as_float v)))"

definition lat_of :: "(string \<times> json) list \<Rightarrow> json \<Rightarrow> error + pyfloat option" where
  "lat_of p props = coordinate p ''lat'' props [''lat'', ''latitude'']"

definition lng_of :: "(string \<times> json) list \<Rightarrow> json \<Rightarrow> error + pyfloat option" where
  "lng_of p props = coordinate p ''lng'' props [''lng'', ''lon'', ''longitude'']"

text \<open>\<^verbatim>\<open>_pick(props, "title") or _pick(feature, "node", "callsign")\<close>, and the pattern
  \<^verbatim>\<open>[A-Z0-9]{3,}\<close> a call sign must contain.\<close>

definition callsign_of :: "(pyfloat \<Rightarrow> string) \<Rightarrow> json \<Rightarrow> json \<Rightarrow> error + string" where
  "callsign_of fs props feature =
     (case pick fs props [''title''] of
        Inl e \<Rightarrow> Inl e
      | Inr c \<Rightarrow> (if c \<noteq> [] then Inr c else pick fs feature [''node'', ''callsign'']))"

definition callsign_rx :: rx where
  "callsign_rx = Rep (\<lambda>c. c \<in> set upper_letters \<or> is_digit c) 3 None"

text \<open>\<^verbatim>\<open>feature.get("displayText") or feature.get("display") or ""\<close>.\<close>

definition display_text_of :: "json \<Rightarrow> error + json" where
  "display_text_of feature =
     (case py_get feature ''displayText'' of
        Inl e \<Rightarrow> Inl e
      | Inr a \<Rightarrow>
          (if truthy a then Inr a
           else (case py_get feature ''display'' of
                   Inl e \<Rightarrow> Inl e
                 | Inr b \<Rightarrow> Inr (or_else b (JStr [])))))"

text \<open>
  One round of the loop of \<^verbatim>\<open>_build_items\<close> for the point \<open>p\<close>: \<open>Inr None\<close> is
  \<^verbatim>\<open>continue\<close>, \<open>Inr (Some it)\<close> is the item appended with the identifier \<open>next_id\<close>,
  \<open>Inl e\<close> is an exception, which ends the whole call. Once \<^verbatim>\<open>_guess_type\<close> has returned,
  the display text is a string.
\<close>

definition make_item :: "int \<Rightarrow> string \<Rightarrow> string \<Rightarrow> pyfloat \<Rightarrow> pyfloat \<Rightarrow> string \<Rightarrow> packet_item" where
  "make_item next_id typ callsign lat lng display_text =
     (case parse_freq_baud display_text of
        (f, b, channels) \<Rightarrow>
          \<lparr>item_id = next_id,
           item_type = typ,
           item_callsign = strip callsign,
           item_name = (if strip callsign \<noteq> [] then strip callsign else strip callsign),
           item_location = [],
           item_country = [],
           item_lat = lat,
           item_lng = lng,
           item_freq = f,
           item_baud = b,
           item_channels = channels,
           item_mode = ''AX.25'',
           item_status = (if contains (lower display_text) ''age:'' then ''online'' else ''unknown''),
           item_notes = strip_html display_text\<rparr>)"

definition point_step :: "(pyfloat \<Rightarrow> string) \<Rightarrow> (string \<times> json) list \<Rightarrow> int \<Rightarrow> error + packet_item option" where
  "point_step fs p next_id =
     (let props = or_else (dict_get p ''properties'') (JDict []);
          feature = or_else (dict_get p ''feature'') (JDict [])
      in case lat_of p props of
           Inl e \<Rightarrow> Inl e
         | Inr lat \<Rightarrow>
             (case lng_of p props of
                Inl e \<Rightarrow> Inl e
              | Inr lng \<Rightarrow>
                  (case (lat, lng) of
                     (Some la, Some lo) \<Rightarrow>
                       (case callsign_of fs props feature of
                          Inl e \<Rightarrow> Inl e
                        | Inr callsign \<Rightarrow>
                            (if search False callsign_rx (upper callsign) = None then Inr None
                             else (case display_text_of feature of
                                     Inl e \<Rightarrow> Inl e
                                   | Inr dt \<Rightarrow>
                                       (case guess_type dt of
                                          Inl e \<Rightarrow> Inl e
                                        | Inr typ \<Rightarrow>
                                            (case dt of
                                               JStr display_text \<Rightarrow>
                                                 Inr (Some (make_item next_id typ callsign la lo display_text))
                                             | _ \<Rightarrow> Inl AttributeError)))))
                   | _ \<Rightarrow> Inr None)))"

fun build_loop :: "(pyfloat \<Rightarrow> string) \<Rightarrow> (string \<times> json) list list \<Rightarrow> packet_item list \<Rightarrow> int \<Rightarrow> error + packet_item list" where
  "build_loop fs [] items next_id = Inr items"
| "build_loop fs (p # ps) items next_id =
     (case point_step fs p next_id of
        Inl e \<Rightarrow> Inl e
      | Inr None \<Rightarrow> build_loop fs ps items next_id
      | Inr (Some it) \<Rightarrow> build_loop fs ps (items @ [it]) (next_id + 1))"

text \<open>
  \<^verbatim>\<open>round(x, 5)\<close> on a float: the exact value of the double is rounded to five decimals,
  ties to even, and the decimal is read back as a double; an infinity is returned as it
  is.
\<close>

definition round5 :: "pyfloat \<Rightarrow> pyfloat" where
  "round5 v = (case v of Fin q \<Rightarrow> to_double (of_int (round_half_even (q * 100000)) / 100000) | _ \<Rightarrow> v)"

definition item_key :: "packet_item \<Rightarrow> string \<times> pyfloat \<times> pyfloat \<times> string" where
  "item_key it = (upper (item_callsign it), round5 (item_lat it), round5 (item_lng it), item_type it)"

text \<open>The items before the de-duplication, and \<^verbatim>\<open>_build_items\<close>.\<close>

definition built_items :: "(pyfloat \<Rightarrow> string) \<Rightarrow> (string \<times> json) list list \<Rightarrow> error + packet_item list" where
  "built_items fs points = build_loop fs points [] 1"

definition build_items :: "(pyfloat \<Rightarrow> string) \<Rightarrow> (string \<times> json) list list \<Rightarrow> error + packet_item list" where
  "build_items fs points =
     (case built_items fs points of
        Inl e \<Rightarrow> Inl e
      | Inr items \<Rightarrow> Inr (dedupe_loop item_key items {} []))"

section \<open>The catalog emitter of \<^verbatim>\<open>fetch-ukpacket-nodes.py\<close>\<close>

text \<open>\<^verbatim>\<open>_js_escape\<close>: the backslash is doubled, then a backslash is put before every
  backtick and before every \<^verbatim>\<open>${\<close>.\<close>

definition backslash :: string where
  "backslash = [CHR 0x5C]"

definition backtick :: string where
  "backtick = [CHR 0x60]"

definition quote :: string where
  "quote = [CHR 0x27]"

definition js_escape :: "string \<Rightarrow> string" where
  "js_escape s =
     replace ''${'' (backslash @ ''${'')
       (replace backtick (backslash @ backtick)
         (replace backslash (backslash @ backslash) s))"

text \<open>
  The lines \<^verbatim>\<open>_write_packet_data_js\<close> appends for one item. A string field is written
  between single quotes after \<^verbatim>\<open>_js_escape\<close>; the two coordinates are written as
  \<^verbatim>\<open>str\<close> of a float, the parameter \<open>fs\<close>.
\<close>

definition str_field :: "string \<Rightarrow> string \<Rightarrow> string" where
  "str_field name v = ''    '' @ name @ '': '' @ quote @ js_escape v @ quote"

definition channel_line :: "channel \<Rightarrow> string" where
  "channel_line ch =
     ''      { freq: '' @ quote @ js_escape (freq ch) @ quote @
     '', baud: '' @ quote @ js_escape (baud ch) @ quote @
     '', raw: '' @ quote @ js_escape (raw ch) @ quote @ '' },''"

definition item_lines :: "(pyfloat \<Rightarrow> string) \<Rightarrow> packet_item \<Rightarrow> string list" where
  "item_lines fs it =
     [''  {'',
      ''    id: '' @ str_int (item_id it) @ '','',
      str_field ''type'' (item_type it) @ '','',
      str_field ''callsign'' (item_callsign it) @ '','',
      str_field ''name'' (item_name it) @ '','',
      str_field ''location'' (item_location it) @ '','',
      str_field ''country'' (item_country it) @ '','',
      ''    lat: '' @ fs (item_lat it) @ '','',
      ''    lng: '' @ fs (item_lng it) @ '','',
      str_field ''freq'' (item_freq it) @ '','',
      str_field ''baud'' (item_baud it) @ '','']
     @ (if item_channels it \<noteq> []
        then [''    channels: [''] @ map channel_line (item_channels it) @ [''    ],'']
        else [''    channels: [],''])
     @ [str_field ''mode'' (item_mode it) @ '','',
        str_field ''status'' (item_status it) @ '','',
        str_field ''notes'' (item_notes it),
        ''  },'']"

definition data_lines :: "(pyfloat \<Rightarrow> string) \<Rightarrow> packet_item list \<Rightarrow> string list" where
  "data_lines fs items =
     [''const packetNodeData = [''] @ concat (map (item_lines fs) items) @ [''];'' @ [CHR 0x0A]]"

text \<open>
  How JavaScript reads a string literal in single quotes, as far as the emitter can
  write one: the literal ends at the first quote that no backslash precedes; a backslash
  before a backslash, a quote, a backtick or a dollar sign stands for that character; a
  line break inside the literal, and a literal without its closing quote, are syntax
  errors (\<open>None\<close>). The result is the string read and the text after the literal.
\<close>

fun js_read_body :: "string \<Rightarrow> (string \<times> string) option" where
  "js_read_body [] = None"
| "js_read_body [c] = (if [c] = quote then Some ([], []) else None)"
| "js_read_body (c # d # cs) =
     (if [c] = quote then Some ([], d # cs)
      else if c = CHR 0x0A \<or> c = CHR 0x0D then None
      else if [c] = backslash
      then (if [d] = backslash \<or> [d] = quote \<or> [d] = backtick \<or> d = CHR ''$''
            then (case js_read_body cs of None \<Rightarrow> None | Some (v, r) \<Rightarrow> Some (d # v, r))
            else None)
      else (case js_read_body (d # cs) of None \<Rightarrow> None | Some (v, r) \<Rightarrow> Some (c # v, r)))"

definition js_read_literal :: "string \<Rightarrow> (string \<times> string) option" where
  "js_read_literal s = (case s of [] \<Rightarrow> None | c # cs \<Rightarrow> if [c] = quote then js_read_body cs else None)"

section \<open>The endpoint resolver\<close>

subsection \<open>\<^verbatim>\<open>_find_data_urls_from_html\<close> of \<^verbatim>\<open>fetch-ukpacket-nodes.py\<close>\<close>

definition SOURCE_URL :: string where
  "SOURCE_URL = ''https://nodes.ukpacketradio.network/packet-network-map.html?rfonly=0''"

definition DATA_URL :: string where
  "DATA_URL = ''https://nodes.ukpacketradio.network/api/nodedata/geojson?linkType=RF&linkType=Internet&linkType=Other&linkType=PrivateNet''"

definition absolutize :: "string \<Rightarrow> string \<Rightarrow> string" where
  "absolutize base_url maybe_relative =
     (if startswith maybe_relative ''http://'' \<or> startswith maybe_relative ''https://''
      then maybe_relative
      else if startswith maybe_relative ''//'' then ''https:'' @ maybe_relative
      else ''https://nodes.ukpacketradio.network/'' @ lstrip_char CHR ''/'' maybe_relative)"

text \<open>The class \<^verbatim>\<open>[^\"\'\s>]\<close> and the pattern \<^verbatim>\<open>api/nodedata/geojson\?[^\"\'\s>]+\<close>.\<close>

definition url_char :: "char \<Rightarrow> bool" where
  "url_char c = (c \<noteq> CHR 0x22 \<and> c \<noteq> CHR 0x27 \<and> \<not> is_space c \<and> c \<noteq> CHR ''>'')"

definition data_url_rx :: rx where
  "data_url_rx = seqs [lit ''api/nodedata/geojson'', Chr CHR ''?'', Rep url_char 1 None]"

text \<open>The candidates are collected in a set, made absolute, joined by \<^verbatim>\<open>DATA_URL\<close>, and
  returned as \<^verbatim>\<open>sorted(set(urls))\<close>.\<close>

definition find_data_urls_from_html :: "string \<Rightarrow> string list" where
  "find_data_urls_from_html html =
     sorted_list_of_set (set (map (absolutize SOURCE_URL) (findall True data_url_rx html) @ [DATA_URL]))"

subsection \<open>\<^verbatim>\<open>main\<close> of \<^verbatim>\<open>discover-ukpacket-data-endpoint.py\<close>\<close>

definition BASE :: string where
  "BASE = ''https://nodes.ukpacketradio.network/''"

definition MAP_URL :: string where
  "MAP_URL = BASE @ ''packet-network-map.html?rfonly=0''"

definition absolutize_base :: "string \<Rightarrow> string" where
  "absolutize_base url =
     (if startswith url ''http://'' \<or> startswith url ''https://'' then url
      else if startswith url ''//'' then ''https:'' @ url
      else BASE @ lstrip_char CHR ''/'' url)"

text \<open>The empty pattern, and \<^verbatim>\<open>r?\<close>.\<close>

definition Eps :: rx where
  "Eps = Rep (\<lambda>c. False) 0 (Some 0)"

definition opt :: "rx \<Rightarrow> rx" where
  "opt r = Alt r Eps"

text \<open>The patterns \<^verbatim>\<open><script[^>]+src=\"([^\"]+)\"\<close>,
  \<^verbatim>\<open>(?:fetch\(|XMLHttpRequest\(|open\(|axios\.|\$\.get\(|\$\.getJSON\(|\$\.ajax\(|getJSON\()\s*[\(\{\s]*[\"\']([^\"\']+)\<close>
  and \<^verbatim>\<open>(?:https?:)?//[^\"\'\s>]+\<close>.\<close>

definition script_rx :: rx where
  "script_rx =
     seqs [lit ''<script'', Rep (\<lambda>c. c \<noteq> CHR ''>'') 1 None, lit ''src='', Chr CHR 0x22,
           Grp 1 (Rep (\<lambda>c. c \<noteq> CHR 0x22) 1 None), Chr CHR 0x22]"

definition endpoint_rx :: rx where
  "endpoint_rx =
     seqs [alts [lit ''fetch('', lit ''XMLHttpRequest('', lit ''open('', lit ''axios.'',
                 lit ''$.get('', lit ''$.getJSON('', lit ''$.ajax('', lit ''getJSON(''],
           Rep is_space 0 None,
           Rep (\<lambda>c. c = CHR ''('' \<or> c = CHR ''{'' \<or> is_space c) 0 None,
           Cls (\<lambda>c. c = CHR 0x22 \<or> c = CHR 0x27),
           Grp 1 (Rep (\<lambda>c. c \<noteq> CHR 0x22 \<and> c \<noteq> CHR 0x27) 1 None)]"

definition url_rx :: rx where
  "url_rx =
     seqs [opt (seqs [lit ''http'', opt (Chr CHR ''s''), Chr CHR '':'']), lit ''//'',
           Rep url_char 1 None]"

text \<open>The two loops over the matches in a text \<open>txt\<close>, which add to the sets \<open>endpoints\<close>
  and \<open>all_urls\<close>.\<close>

definition scan_text :: "string \<Rightarrow> string set \<times> string set \<Rightarrow> string set \<times> string set" where
  "scan_text txt acc =
     (case acc of
        (endpoints, all_urls) \<Rightarrow>
          (endpoints \<union> set (map (\<lambda>m. absolutize_base (group txt m 1)) (finditer True endpoint_rx txt)),
           all_urls \<union> set (map (\<lambda>m. absolutize_base (group0 txt m)) (finditer True url_rx txt))))"

text \<open>
  The loop over the scripts: \<open>fetch\<close> is \<^verbatim>\<open>get_text\<close>, the request to the network, with
  \<open>None\<close> for an exception; a script that cannot be fetched is skipped.
\<close>

fun scripts_loop :: "(string \<Rightarrow> string option) \<Rightarrow> string list \<Rightarrow> string set \<times> string set \<Rightarrow> string set \<times> string set" where
  "scripts_loop fetch [] acc = acc"
| "scripts_loop fetch (s # ss) acc =
     (case fetch s of
        None \<Rightarrow> scripts_loop fetch ss acc
      | Some js \<Rightarrow> scripts_loop fetch ss (scan_text js acc))"

definition host_name :: string where
  "host_name = ''nodes.ukpacketradio.network''"

text \<open>What \<^verbatim>\<open>main\<close> finds in the page \<open>html\<close> before it writes its report: the sorted
  scripts, the endpoints and the URLs; and \<^verbatim>\<open>main\<close> up to there, which fails when the
  page itself cannot be fetched.\<close>

definition discover_scan :: "(string \<Rightarrow> string option) \<Rightarrow> string \<Rightarrow> string list \<times> string set \<times> string set" where
  "discover_scan fetch html =
     (let scripts = sorted_list_of_set
                      (set (map (\<lambda>m. absolutize_base (group html m 1)) (finditer True script_rx html)))
      in case scan_text html (scripts_loop fetch scripts ({}, {})) of
           (endpoints, all_urls) \<Rightarrow>
             (scripts,
              Set.filter (\<lambda>u. contains u host_name) endpoints,
              Set.filter (\<lambda>u. contains u host_name) all_urls))"

definition discover_main :: "(string \<Rightarrow> string option) \<Rightarrow> error + string list \<times> string set \<times> string set" where
  "discover_main fetch =
     (case fetch MAP_URL of
        None \<Rightarrow> Inl RequestError
      | Some html \<Rightarrow> Inr (discover_scan fetch html))"

section \<open>Notions the properties are stated with\<close>

text \<open>The element at index \<open>i\<close> of \<open>xs\<close> is the first of \<open>xs\<close> with its key, and its key
  is not in \<open>seen\<close>.\<close>

definition first_with_key :: "('a \<Rightarrow> 'k) \<Rightarrow> 'k set \<Rightarrow> 'a list \<Rightarrow> nat \<Rightarrow> bool" where
  "first_with_key key seen xs i =
     (key (xs ! i) \<notin> seen \<and> (\<forall>j<i. key (xs ! j) \<noteq> key (xs ! i)))"

text \<open>What one chunk contributes: the records of its matches with a unit, the records of
  its bare numbers, and whether it holds one of the context words.\<close>

definition unit_records :: "string \<Rightarrow> channel list" where
  "unit_records ch = unit_loop ch (baud_in ch) (finditer True unit_freq_rx ch) []"

definition bare_records :: "string \<Rightarrow> channel list" where
  "bare_records ch = bare_loop ch (baud_in ch) (finditer False bare_freq_rx ch) []"

definition has_context :: "string \<Rightarrow> bool" where
  "has_context ch = (search False context_rx ch \<noteq> None)"

text \<open>The frequency of a record is a text that \<^verbatim>\<open>_to_mhz_str\<close> returned.\<close>

definition checked_freq :: "channel \<Rightarrow> bool" where
  "checked_freq c = (\<exists>r u. to_mhz_str r u = Some (freq c))"

text \<open>A point as \<^verbatim>\<open>_extract_points_from_geojson\<close> yields it for a feature: the two
  coordinates, the properties with a title, and the feature with its display text.\<close>

definition feature_point :: "json \<Rightarrow> json \<Rightarrow> string \<Rightarrow> string \<Rightarrow> (string \<times> json) list" where
  "feature_point lat lng title display_text =
     [(''lat'', lat), (''lng'', lng),
      (''properties'', JDict [(''title'', JStr title)]),
      (''feature'', JDict [(''displayText'', JStr display_text)])]"

section \<open>The de-duplication loop\<close>

text \<open>The loop appends to \<open>uniq\<close>; what it appends are the elements that are the first
  with their key, in their order, and every key is kept once.\<close>

lemma dedupe_loop_acc:
  "dedupe_loop key xs seen uniq = uniq @ dedupe_loop key xs seen []"
proof (induction xs arbitrary: seen uniq)
  case Nil
  show ?case by simp
next
  case (Cons x xs)
  show ?case
  proof (cases "key x \<in> seen")
    case True
    then show ?thesis using Cons.IH [of seen uniq] by simp
  next
    case False
    then show ?thesis
      using Cons.IH [of "insert (key x) seen" "uniq @ [x]"] Cons.IH [of "insert (key x) seen" "[x]"]
      by simp
  qed
qed

lemma first_with_key_Cons_Suc:
  "first_with_key key seen (x # xs) (Suc i) = first_with_key key (insert (key x) seen) xs i"
  unfolding first_with_key_def
  by (auto simp: less_Suc_eq_0_disj)

lemma first_with_key_absorb:
  "k \<in> seen \<Longrightarrow> first_with_key key (insert k seen) xs i = first_with_key key seen xs i"
  by (simp add: insert_absorb)

lemma dedupe_loop_index:
  "dedupe_loop key xs seen [] =
     map (nth xs) (filter (first_with_key key seen xs) [0..<length xs])"
proof (induction xs arbitrary: seen)
  case Nil
  show ?case by simp
next
  case (Cons x xs)
  let ?F = "\<lambda>s ys. map (nth ys) (filter (first_with_key key s ys) [0..<length ys])"
  have upt: "[0..<length (x # xs)] = 0 # map Suc [0..<length xs]"
    by (simp add: upt_conv_Cons map_Suc_upt del: upt_Suc)
  have rest: "map (nth (x # xs)) (filter (first_with_key key seen (x # xs)) (map Suc [0..<length xs]))
      = ?F (insert (key x) seen) xs"
    by (simp add: filter_map comp_def first_with_key_Cons_Suc)
  have first: "first_with_key key seen (x # xs) 0 = (key x \<notin> seen)"
    by (simp add: first_with_key_def)
  have split: "?F seen (x # xs) = (if key x \<in> seen then [] else [x]) @ ?F (insert (key x) seen) xs"
    unfolding upt using rest first by simp
  show ?case
  proof (cases "key x \<in> seen")
    case True
    then have "insert (key x) seen = seen" by (rule insert_absorb)
    with True show ?thesis
      using Cons.IH [of seen] unfolding split by simp
  next
    case False
    have "dedupe_loop key (x # xs) seen [] = x # dedupe_loop key xs (insert (key x) seen) []"
      using False dedupe_loop_acc [of key xs "insert (key x) seen" "[x]"] by simp
    with False show ?thesis
      using Cons.IH [of "insert (key x) seen"] unfolding split by simp
  qed
qed

lemma dedupe_loop_keys:
  "key ` set (dedupe_loop key xs seen []) = key ` set xs - seen"
proof (induction xs arbitrary: seen)
  case Nil
  show ?case by simp
next
  case (Cons x xs)
  show ?case
  proof (cases "key x \<in> seen")
    case True
    then show ?thesis using Cons.IH [of seen] by auto
  next
    case False
    have "dedupe_loop key (x # xs) seen [] = x # dedupe_loop key xs (insert (key x) seen) []"
      using False dedupe_loop_acc [of key xs "insert (key x) seen" "[x]"] by simp
    then show ?thesis using False Cons.IH [of "insert (key x) seen"] by auto
  qed
qed

lemma dedupe_loop_distinct:
  "distinct (map key (dedupe_loop key xs seen []))"
proof (induction xs arbitrary: seen)
  case Nil
  show ?case by simp
next
  case (Cons x xs)
  show ?case
  proof (cases "key x \<in> seen")
    case True
    then show ?thesis using Cons.IH [of seen] by simp
  next
    case False
    have eq: "dedupe_loop key (x # xs) seen [] = x # dedupe_loop key xs (insert (key x) seen) []"
      using False dedupe_loop_acc [of key xs "insert (key x) seen" "[x]"] by simp
    have "key x \<notin> key ` set (dedupe_loop key xs (insert (key x) seen) [])"
      by (simp add: dedupe_loop_keys)
    then show ?thesis using Cons.IH [of "insert (key x) seen"] unfolding eq by simp
  qed
qed

lemma dedupe_loop_subset: "set (dedupe_loop key xs seen []) \<subseteq> set xs"
  by (auto simp: dedupe_loop_index)

section \<open>Decimal numerals and floats\<close>

subsection \<open>Digits\<close>

lemma digit_cases:
  assumes "0 \<le> d" "d < 10"
  shows "d = 0 \<or> d = 1 \<or> d = 2 \<or> d = 3 \<or> d = 4 \<or> d = 5 \<or> d = 6 \<or> d = 7 \<or> d = 8 \<or> d = (9::int)"
  using assms by arith

lemma digit_char_props:
  assumes "0 \<le> d" "d < 10"
  shows "is_digit (digit_char d)" and "digit_val (digit_char d) = d"
  using digit_cases [OF assms]
  by (auto simp: digit_char_def is_digit_def digit_val_def)

lemma int_of_digits_snoc: "int_of_digits (s @ [c]) = 10 * int_of_digits s + digit_val c"
  by (simp add: int_of_digits_def)

lemma str_nat_props:
  "0 \<le> n \<Longrightarrow> str_nat n \<noteq> [] \<and> (\<forall>c \<in> set (str_nat n). is_digit c) \<and> int_of_digits (str_nat n) = n"
proof (induction n rule: str_nat.induct)
  case (1 n)
  show ?case
  proof (cases "n < 10")
    case True
    with "1.prems" show ?thesis
      by (simp add: str_nat.simps [of n] digit_char_props int_of_digits_def)
  next
    case False
    then have ih: "str_nat (n div 10) \<noteq> [] \<and> (\<forall>c \<in> set (str_nat (n div 10)). is_digit c)
        \<and> int_of_digits (str_nat (n div 10)) = n div 10"
      using "1.IH" "1.prems" by simp
    have m: "0 \<le> n mod 10" "n mod 10 < 10" by simp_all
    show ?thesis
      using False ih digit_char_props [OF m]
      by (simp add: str_nat.simps [of n] int_of_digits_snoc)
  qed
qed

lemma str_nat_length: "0 \<le> n \<Longrightarrow> n < 10 ^ k \<Longrightarrow> 0 < k \<Longrightarrow> length (str_nat n) \<le> k"
proof (induction n arbitrary: k rule: str_nat.induct)
  case (1 n)
  show ?case
  proof (cases "n < 10")
    case True
    with "1.prems" show ?thesis by (simp add: str_nat.simps [of n])
  next
    case False
    obtain j where k: "k = Suc j" using "1.prems" by (cases k) auto
    have j: "0 < j"
    proof (rule ccontr)
      assume "\<not> 0 < j"
      then have "k = 1" using k by simp
      with "1.prems" False show False by simp
    qed
    have "n div 10 < 10 ^ j" using "1.prems" k by (simp add: div_less_iff_less_mult mult.commute)
    then have "length (str_nat (n div 10)) \<le> j"
      using "1.IH" [of j] False "1.prems" j by simp
    then show ?thesis using False k by (simp add: str_nat.simps [of n])
  qed
qed

lemma digit_val_zero: "digit_val CHR ''0'' = 0"
  by (simp add: digit_val_def)

lemma foldl_zeros: "foldl (\<lambda>a c. 10 * a + digit_val c) 0 (replicate k CHR ''0'') = 0"
proof (induction k)
  case 0
  show ?case by simp
next
  case (Suc k)
  have "replicate (Suc k) CHR ''0'' = replicate k CHR ''0'' @ [CHR ''0'']"
    by (simp add: replicate_append_same)
  then show ?case using Suc by (simp only: foldl_append foldl.simps digit_val_zero)
qed

lemma int_of_digits_zeros_front: "int_of_digits (replicate k CHR ''0'' @ s) = int_of_digits s"
  by (simp add: int_of_digits_def foldl_zeros)

lemma int_of_digits_zeros_back: "int_of_digits (s @ replicate k CHR ''0'') = int_of_digits s * 10 ^ k"
proof (induction k)
  case 0
  show ?case by simp
next
  case (Suc k)
  have "s @ replicate (Suc k) CHR ''0'' = (s @ replicate k CHR ''0'') @ [CHR ''0'']"
    by (simp add: replicate_append_same)
  then show ?case using Suc by (simp only: int_of_digits_snoc digit_val_zero) simp
qed

lemma is_digit_zero: "is_digit CHR ''0''"
  by (simp add: is_digit_def)

lemma pad6_length: "length s \<le> 6 \<Longrightarrow> length (pad6 s) = 6"
  by (simp add: pad6_def)

lemma pad6_digits: "\<forall>c \<in> set s. is_digit c \<Longrightarrow> \<forall>c \<in> set (pad6 s). is_digit c"
  unfolding pad6_def using is_digit_zero by auto

lemma pad6_value: "int_of_digits (pad6 s) = int_of_digits s"
  unfolding pad6_def by (rule int_of_digits_zeros_front)

subsection \<open>Stripping a character from the right\<close>

lemma rstrip_char_decomp: "\<exists>k. s = rstrip_char c s @ replicate k c"
proof -
  have "rev s = takeWhile (\<lambda>x. x = c) (rev s) @ dropWhile (\<lambda>x. x = c) (rev s)"
    by simp
  then have "s = rev (dropWhile (\<lambda>x. x = c) (rev s)) @ rev (takeWhile (\<lambda>x. x = c) (rev s))"
    by (metis rev_append rev_rev_ident)
  moreover have "takeWhile (\<lambda>x. x = c) (rev s) = replicate (length (takeWhile (\<lambda>x. x = c) (rev s))) c"
    by (rule replicate_length_same [symmetric]) (auto dest: set_takeWhileD)
  ultimately have "s = rstrip_char c s @ replicate (length (takeWhile (\<lambda>x. x = c) (rev s))) c"
    unfolding rstrip_char_def by (metis rev_replicate)
  then show ?thesis ..
qed

lemma rstrip_char_last: "rstrip_char c s \<noteq> [] \<Longrightarrow> last (rstrip_char c s) \<noteq> c"
proof -
  assume ne: "rstrip_char c s \<noteq> []"
  then have d: "dropWhile (\<lambda>x. x = c) (rev s) \<noteq> []" by (simp add: rstrip_char_def)
  then have "hd (dropWhile (\<lambda>x. x = c) (rev s)) \<noteq> c"
    using hd_dropWhile [of "\<lambda>x. x = c" "rev s"] by simp
  then show ?thesis using d by (simp add: rstrip_char_def last_rev)
qed

lemma rstrip_char_keep: "s \<noteq> [] \<Longrightarrow> last s \<noteq> c \<Longrightarrow> rstrip_char c s = s"
  by (cases s rule: rev_cases) (simp_all add: rstrip_char_def)

lemma rstrip_char_append_keep:
  "ys \<noteq> [] \<Longrightarrow> last ys \<noteq> c \<Longrightarrow> rstrip_char c (xs @ ys) = xs @ ys"
  by (rule rstrip_char_keep) simp_all

lemma rstrip_char_replicate: "rstrip_char c (xs @ replicate k c) = rstrip_char c xs"
proof -
  have "dropWhile (\<lambda>x. x = c) (replicate k c @ ys) = dropWhile (\<lambda>x. x = c) ys" for ys
    by (induction k) simp_all
  then show ?thesis by (simp add: rstrip_char_def)
qed

lemma rstrip_char_subset: "set (rstrip_char c s) \<subseteq> set s"
  unfolding rstrip_char_def using set_dropWhileD by fastforce

subsection \<open>Reading a decimal numeral as a float\<close>

lemma is_digit_not_space: "is_digit c \<Longrightarrow> \<not> is_cspace c"
  unfolding is_digit_def is_cspace_def by auto

lemma is_digit_not_sign:
  "is_digit c \<Longrightarrow> c \<noteq> CHR ''-'' \<and> c \<noteq> CHR ''+'' \<and> c \<noteq> CHR ''.'' \<and> c \<noteq> CHR ''_''
     \<and> c \<noteq> CHR ''i'' \<and> c \<noteq> CHR ''n'' \<and> c \<noteq> CHR ''e'' \<and> c \<noteq> CHR ''E''"
  unfolding is_digit_def by auto

lemma lower_char_other: "c \<notin> set upper_letters \<Longrightarrow> lower_char c = c"
proof -
  assume a: "c \<notin> set upper_letters"
  have "length upper_letters = length lower_letters"
    by (simp add: upper_letters_def lower_letters_def)
  then have "map_of (zip upper_letters lower_letters) c = None"
    using a by (simp add: map_of_zip_is_None)
  then show ?thesis by (simp add: lower_char_def)
qed

lemma is_digit_not_upper: "is_digit c \<Longrightarrow> c \<notin> set upper_letters"
  unfolding is_digit_def upper_letters_def by auto

lemma lower_char_digit: "is_digit c \<Longrightarrow> lower_char c = c"
  by (simp add: lower_char_other is_digit_not_upper)

lemma cstrip_keep:
  assumes "s \<noteq> []" "\<not> is_cspace (hd s)" "\<not> is_cspace (last s)"
  shows "cstrip s = s"
proof -
  have l: "dropWhile is_cspace s = s" using assms by (cases s) simp_all
  have "rev (dropWhile is_cspace (rev s)) = s"
    using assms by (cases s rule: rev_cases) simp_all
  with l show ?thesis by (simp add: cstrip_def)
qed

lemma digit_run_digits:
  assumes "\<forall>c \<in> set ds. is_digit c" "r = [] \<or> (\<not> is_digit (hd r) \<and> hd r \<noteq> CHR ''_'')"
  shows "digit_run (ds @ r) = (ds, r)"
  using assms
proof (induction ds)
  case Nil
  then show ?case by (cases r) simp_all
next
  case (Cons d ds)
  then show ?case by simp
qed

lemma digit_part_digits:
  assumes "ds \<noteq> []" "\<forall>c \<in> set ds. is_digit c" "r = [] \<or> (\<not> is_digit (hd r) \<and> hd r \<noteq> CHR ''_'')"
  shows "digit_part (ds @ r) = Some (ds, r)"
  using assms digit_run_digits [of ds r] by (cases ds) (simp_all add: digit_part_def)

lemma float_number_decimal:
  assumes "A \<noteq> []" "\<forall>c \<in> set A. is_digit c" "\<forall>c \<in> set B. is_digit c"
  shows "float_number (A @ (if B = [] then [] else CHR ''.'' # B)) = Some (A, B, [])"
proof (cases "B = []")
  case True
  have "digit_part A = Some (A, [])" using digit_part_digits [of A "[]"] assms by simp
  with True show ?thesis by (simp add: float_number_def startswith_def)
next
  case False
  have p: "\<not> is_digit CHR ''.''" using is_digit_not_sign by blast
  have a: "digit_part (A @ CHR ''.'' # B) = Some (A, CHR ''.'' # B)"
    using digit_part_digits [of A "CHR ''.'' # B"] assms p by simp
  have b: "digit_part B = Some (B, [])" using digit_part_digits [of B "[]"] assms False by simp
  from False a b show ?thesis by (simp add: float_number_def startswith_def)
qed

lemma float_of_str_decimal:
  assumes "A \<noteq> []" "\<forall>c \<in> set A. is_digit c" "\<forall>c \<in> set B. is_digit c"
  shows "float_of_str (A @ (if B = [] then [] else CHR ''.'' # B)) = Some (to_double (decimal A B))"
proof -
  let ?s = "A @ (if B = [] then [] else CHR ''.'' # B)"
  have ne: "?s \<noteq> []" using assms by simp
  have hd: "hd ?s = hd A" using assms by simp
  have dh: "is_digit (hd A)" using assms by (cases A) simp_all
  have last: "is_digit (last ?s)" using assms by (cases B rule: rev_cases) (simp_all add: last_append)
  have strip: "cstrip ?s = ?s"
    using cstrip_keep [OF ne] hd dh last is_digit_not_space by simp
  have sign: "split_sign ?s = (False, ?s)"
    using ne hd dh is_digit_not_sign [of "hd A"]
    by (cases ?s) (auto simp: split_sign_def startswith_def)
  have lo: "hd (lower ?s) = hd A"
    using ne hd dh lower_char_digit [of "hd A"] by (cases ?s) (auto simp: lower_def)
  have ninf: "lower ?s \<noteq> ''inf''" "lower ?s \<noteq> ''infinity''" "lower ?s \<noteq> ''nan''"
    using lo dh is_digit_not_sign [of "hd A"] by auto
  show ?thesis
    unfolding float_of_str_def strip sign
    using ninf float_number_decimal [OF assms]
    by (simp add: float_exponent_def pow10_def)
qed

subsection \<open>Rounding\<close>

lemma round_half_even_ge: "of_int k \<le> q \<Longrightarrow> k \<le> round_half_even q"
proof -
  assume "of_int k \<le> q"
  then have "k \<le> \<lfloor>q\<rfloor>" by (simp add: le_floor_iff)
  then show ?thesis by (simp add: round_half_even_def Let_def)
qed

lemma round_half_even_le: "q \<le> of_int k \<Longrightarrow> round_half_even q \<le> k"
proof (cases "q = of_int k")
  case True
  then show ?thesis by (simp add: round_half_even_def Let_def)
next
  case False
  assume "q \<le> of_int k"
  with False have "q < of_int k" by simp
  then have "\<lfloor>q\<rfloor> < k" by (simp add: floor_less_iff)
  then show ?thesis by (simp add: round_half_even_def Let_def)
qed

subsection \<open>The text of a frequency\<close>

lemma fmt_mhz_form:
  assumes "0 \<le> q"
  shows "\<exists>A B. A \<noteq> [] \<and> (\<forall>c \<in> set A. is_digit c) \<and> (\<forall>c \<in> set B. is_digit c) \<and>
           fmt_mhz (Fin q) = A @ (if B = [] then [] else CHR ''.'' # B) \<and>
           decimal A B = of_int (round_half_even (q * 1000000)) / 1000000"
proof -
  define n where "n = round_half_even (q * 1000000)"
  define A where "A = str_nat (n div 1000000)"
  define F where "F = pad6 (str_nat (n mod 1000000))"
  define B where "B = rstrip_char CHR ''0'' F"
  have n0: "0 \<le> n"
    unfolding n_def using assms by (intro round_half_even_ge) simp
  have A: "A \<noteq> []" "\<forall>c \<in> set A. is_digit c" "int_of_digits A = n div 1000000"
    unfolding A_def using str_nat_props [of "n div 1000000"] n0 by (simp_all add: pos_imp_zdiv_nonneg_iff)
  have m: "0 \<le> n mod 1000000" "n mod 1000000 < 10 ^ 6" by simp_all
  have S: "\<forall>c \<in> set (str_nat (n mod 1000000)). is_digit c"
      "int_of_digits (str_nat (n mod 1000000)) = n mod 1000000"
    using str_nat_props [OF m(1)] by simp_all
  have Sl: "length (str_nat (n mod 1000000)) \<le> 6"
    using str_nat_length [OF m] by simp
  have F: "length F = 6" "\<forall>c \<in> set F. is_digit c" "int_of_digits F = n mod 1000000"
    unfolding F_def using pad6_length [OF Sl] pad6_digits [OF S(1)] S(2) by (simp_all add: pad6_value)
  obtain k where k: "F = B @ replicate k CHR ''0''"
    unfolding B_def using rstrip_char_decomp [of F "CHR ''0''"] by blast
  have Bd: "\<forall>c \<in> set B. is_digit c"
    using F(2) rstrip_char_subset [of "CHR ''0''" F] unfolding B_def by blast
  have Bl: "B \<noteq> [] \<Longrightarrow> last B \<noteq> CHR ''0''"
    unfolding B_def by (rule rstrip_char_last)
  have fmt: "format_6f (Fin q) = A @ ''.'' @ F"
    using assms by (simp add: format_6f_def n_def A_def F_def Let_def)
  have "rstrip_char CHR ''0'' (A @ ''.'' @ F) = rstrip_char CHR ''0'' ((A @ ''.'' @ B) @ replicate k CHR ''0'')"
    using k by simp
  also have "\<dots> = rstrip_char CHR ''0'' (A @ ''.'' @ B)"
    by (rule rstrip_char_replicate)
  also have "\<dots> = A @ ''.'' @ B"
  proof (cases "B = []")
    case True
    then show ?thesis by (simp add: rstrip_char_keep)
  next
    case False
    then show ?thesis using Bl by (simp add: rstrip_char_keep)
  qed
  finally have z: "rstrip_char CHR ''0'' (format_6f (Fin q)) = A @ ''.'' @ B"
    using fmt by simp
  have Alast: "last A \<noteq> CHR ''.''"
    using A(1,2) is_digit_not_sign [of "last A"] by simp
  have res: "fmt_mhz (Fin q) = A @ (if B = [] then [] else CHR ''.'' # B)"
  proof (cases "B = []")
    case True
    have "rstrip_char CHR ''.'' (A @ ''.'') = rstrip_char CHR ''.'' (A @ replicate 1 CHR ''.'')"
      by simp
    also have "\<dots> = rstrip_char CHR ''.'' A" by (rule rstrip_char_replicate)
    also have "\<dots> = A" using A(1) Alast by (rule rstrip_char_keep)
    finally show ?thesis using True z by (simp add: fmt_mhz_def)
  next
    case False
    then have "is_digit (last B)" using Bd by simp
    then have "last B \<noteq> CHR ''.''" using is_digit_not_sign by blast
    then have "rstrip_char CHR ''.'' (A @ ''.'' @ B) = A @ ''.'' @ B"
      using False by (simp add: rstrip_char_keep)
    then show ?thesis using False z by (simp add: fmt_mhz_def)
  qed
  have len: "length B + k = 6" using k F(1) by (metis length_append length_replicate)
  have "int_of_digits F = int_of_digits B * 10 ^ k"
    unfolding k by (rule int_of_digits_zeros_back)
  then have v: "int_of_digits B * 10 ^ k = n mod 1000000" using F(3) by simp
  have "(of_int (int_of_digits B) :: rat) / 10 ^ length B
      = (of_int (int_of_digits B) * 10 ^ k) / (10 ^ length B * 10 ^ k)"
    by simp
  also have "\<dots> = of_int (int_of_digits B * 10 ^ k) / 10 ^ (length B + k)"
    by (simp add: power_add)
  also have "\<dots> = of_int (n mod 1000000) / 1000000"
    using v len by simp
  finally have fr: "(of_int (int_of_digits B) :: rat) / 10 ^ length B = of_int (n mod 1000000) / 1000000" .
  have "(of_int (n div 1000000) :: rat) + of_int (n mod 1000000) / 1000000 = of_int n / 1000000"
  proof -
    have "n = (n div 1000000) * 1000000 + n mod 1000000" by simp
    then have "(of_int n :: rat) = of_int (n div 1000000) * 1000000 + of_int (n mod 1000000)"
      by (metis of_int_add of_int_mult of_int_numeral)
    then show ?thesis by (simp add: field_simps)
  qed
  then have dec: "decimal A B = of_int n / 1000000"
    unfolding decimal_def using A(3) fr by simp
  show ?thesis
    using A(1,2) Bd res dec unfolding n_def by blast
qed

subsection \<open>Rounding to a double stays in the band\<close>

lemma bitlen_nonneg: "0 \<le> bitlen n"
  by (induction n rule: bitlen.induct) (simp add: bitlen.simps)

lemma bitlen_pos: "0 < n \<Longrightarrow> 1 \<le> bitlen n"
  using bitlen_nonneg [of "n div 2"] by (simp add: bitlen.simps [of n])

lemma bitlen_le: "n < 2 ^ k \<Longrightarrow> bitlen n \<le> int k"
proof (induction k arbitrary: n)
  case 0
  then show ?case by (simp add: bitlen.simps [of n])
next
  case (Suc k)
  show ?case
  proof (cases "n \<le> 0")
    case True
    then show ?thesis by (simp add: bitlen.simps [of n])
  next
    case False
    have "n div 2 < 2 ^ k" using Suc.prems by simp
    then have "bitlen (n div 2) \<le> int k" by (rule Suc.IH)
    with False show ?thesis by (simp add: bitlen.simps [of n])
  qed
qed

lemma floor_log2_le_8:
  assumes "0 < x" "x \<le> 500"
  shows "floor_log2 x \<le> 8"
proof (cases "1 \<le> x")
  case True
  have "\<lfloor>x\<rfloor> \<le> 500" using assms(2) by (simp add: floor_le_iff)
  then have "\<lfloor>x\<rfloor> < 2 ^ 9" by simp
  then have "bitlen \<lfloor>x\<rfloor> \<le> int 9" by (rule bitlen_le)
  with True show ?thesis by (simp add: floor_log2_def)
next
  case False
  then have "1 \<le> 1 / x" using assms(1) by (simp add: field_simps)
  then have "0 < \<lfloor>1 / x\<rfloor>" by (simp add: floor_less_iff [symmetric] le_floor_iff)
  then have "1 \<le> bitlen \<lfloor>1 / x\<rfloor>" by (rule bitlen_pos)
  with False show ?thesis by (simp add: floor_log2_def Let_def)
qed

lemma to_double_band:
  assumes "1 / 2 \<le> x" "x \<le> 500"
  shows "\<exists>y. to_double x = Fin y \<and> 1 / 2 \<le> y \<and> y \<le> 500"
proof -
  have x0: "0 < x" using assms(1) by simp
  define e where "e = max (floor_log2 x) (- 1022)"
  define j where "j = nat (52 - e)"
  define m where "m = round_half_even (x / pow2 (e - 52))"
  have e8: "e \<le> 8" unfolding e_def using floor_log2_le_8 [OF x0 assms(2)] by simp
  then have j1: "1 \<le> j" unfolding j_def by simp
  have u: "pow2 (e - 52) = 1 / 2 ^ j"
    using e8 by (simp add: pow2_def j_def)
  have xu: "x / pow2 (e - 52) = x * 2 ^ j" unfolding u by simp
  obtain i where i: "j = Suc i" using j1 by (cases j) auto
  have "(of_int (2 ^ i) :: rat) = 2 ^ j / 2" unfolding i by simp
  also have "\<dots> \<le> x * 2 ^ j" using assms(1) by (simp add: field_simps)
  finally have lo: "2 ^ i \<le> m" unfolding m_def xu by (rule round_half_even_ge)
  have "x * 2 ^ j \<le> (of_int (500 * 2 ^ j) :: rat)" using assms(2) by simp
  then have hi: "m \<le> 500 * 2 ^ j" unfolding m_def xu by (rule round_half_even_le)
  have val: "to_double x = Fin (of_int m * pow2 (e - 52))"
    using x0 e8 by (simp add: to_double_def Let_def e_def [symmetric] m_def [symmetric])
  have "(1 :: rat) / 2 = of_int (2 ^ i) / 2 ^ j" unfolding i by simp
  also have "\<dots> \<le> of_int m / 2 ^ j" using lo by (simp add: divide_right_mono)
  finally have l: "1 / 2 \<le> of_int m * pow2 (e - 52)" unfolding u by simp
  have "(of_int m :: rat) \<le> of_int (500 * 2 ^ j)"
    using hi by (simp only: of_int_le_iff)
  then have "(of_int m :: rat) / 2 ^ j \<le> of_int (500 * 2 ^ j) / 2 ^ j"
    by (intro divide_right_mono) simp_all
  then have h: "of_int m * pow2 (e - 52) \<le> 500" unfolding u by simp
  from val l h show ?thesis by blast
qed

section \<open>The channel extractor\<close>

subsection \<open>The loops append\<close>

lemma unit_loop_acc: "unit_loop ch b ms acc = acc @ unit_loop ch b ms []"
proof (induction ms arbitrary: acc)
  case Nil
  show ?case by simp
next
  case (Cons m ms)
  show ?case
  proof (cases "to_mhz_str (group ch m 1) (Some (group ch m 2))")
    case None
    then show ?thesis using Cons.IH [of acc] by simp
  next
    case (Some mhz)
    then show ?thesis
      using Cons.IH [of acc] Cons.IH [of "acc @ [\<lparr>freq = mhz, baud = b, raw = group0 ch m\<rparr>]"]
        Cons.IH [of "[\<lparr>freq = mhz, baud = b, raw = group0 ch m\<rparr>]"]
      by simp
  qed
qed

lemma bare_loop_acc: "bare_loop ch b ms acc = acc @ bare_loop ch b ms []"
proof (induction ms arbitrary: acc)
  case Nil
  show ?case by simp
next
  case (Cons m ms)
  show ?case
  proof (cases "to_mhz_str (group ch m 1) None")
    case None
    then show ?thesis using Cons.IH [of acc] by simp
  next
    case (Some mhz)
    then show ?thesis
      using Cons.IH [of acc] Cons.IH [of "acc @ [\<lparr>freq = mhz, baud = b, raw = group ch m 1\<rparr>]"]
        Cons.IH [of "[\<lparr>freq = mhz, baud = b, raw = group ch m 1\<rparr>]"]
      by simp
  qed
qed

lemma chunk_step_records:
  "chunk_step ch acc = acc @ unit_records ch @ (if has_context ch then bare_records ch else [])"
proof -
  let ?b = "baud_in ch"
  have u: "unit_loop ch ?b (finditer True unit_freq_rx ch) acc = acc @ unit_records ch"
    unfolding unit_records_def by (rule unit_loop_acc)
  have b: "bare_loop ch ?b (finditer False bare_freq_rx ch) (acc @ unit_records ch)
      = (acc @ unit_records ch) @ bare_records ch"
    unfolding bare_records_def by (rule bare_loop_acc)
  show ?thesis
    unfolding chunk_step_def Let_def u b has_context_def by simp
qed

lemma chunk_loop_records:
  "chunk_loop chs acc =
     acc @ concat (map (\<lambda>ch. unit_records ch @ (if has_context ch then bare_records ch else [])) chs)"
proof (induction chs arbitrary: acc)
  case Nil
  show ?case by simp
next
  case (Cons ch chs)
  show ?case
    using Cons.IH [of "chunk_step ch acc"] by (simp add: chunk_step_records)
qed

subsection \<open>Bare numbers and the context words\<close>

text \<open>
  C1, as the code has it. The candidates of a text are, chunk after chunk from left to
  right, the records of the chunk's matches with a unit followed, exactly when the chunk
  holds one of the context words, by the records of its bare decimal numbers, read as
  MHz. Whether the chunk has a match with a unit plays no part: a chunk with a context
  word contributes the records of its bare numbers also when it has a match with a unit,
  and a chunk without a context word contributes none.
\<close>

theorem bare_numbers_iff_context:
  "found_channels t =
     concat (map (\<lambda>ch. unit_records ch @ (if has_context ch then bare_records ch else []))
                 (chunks_of t))"
  unfolding found_channels_def by (simp add: chunk_loop_records)

text \<open>
  The claim as the specification states it fails on \<^verbatim>\<open>144.950 MHz FM 7.05\<close>: the text is
  one chunk, the chunk has the match \<^verbatim>\<open>144.950 mhz\<close> with a unit, and still the bare
  number \<^verbatim>\<open>7.05\<close> gives a second record.
\<close>

theorem bare_numbers_beside_unit_match:
  "chunks_of ''144.950 MHz FM 7.05'' = [''144.950 mhz fm 7.05''] \<and>
   map (group0 ''144.950 mhz fm 7.05'') (finditer True unit_freq_rx ''144.950 mhz fm 7.05'')
     = [''144.950 mhz''] \<and>
   extract_channels ''144.950 MHz FM 7.05'' =
     [\<lparr>freq = ''144.95'', baud = [], raw = ''144.950 mhz''\<rparr>,
      \<lparr>freq = ''7.05'', baud = [], raw = ''7.05''\<rparr>]"
  by code_simp

theorem bare_numbers_iff_context_witness:
  "found_channels ''144.950 MHz FM 7.05'' =
     unit_records ''144.950 mhz fm 7.05'' @ bare_records ''144.950 mhz fm 7.05'' \<and>
   unit_records ''144.950 mhz fm 7.05'' = [\<lparr>freq = ''144.95'', baud = [], raw = ''144.950 mhz''\<rparr>] \<and>
   bare_records ''144.950 mhz fm 7.05'' =
     [\<lparr>freq = ''144.95'', baud = [], raw = ''144.950''\<rparr>,
      \<lparr>freq = ''7.05'', baud = [], raw = ''7.05''\<rparr>]"
proof -
  have c: "chunks_of ''144.950 MHz FM 7.05'' = [''144.950 mhz fm 7.05'']"
    by code_simp
  have h: "has_context ''144.950 mhz fm 7.05''"
    by code_simp
  have u: "unit_records ''144.950 mhz fm 7.05'' = [\<lparr>freq = ''144.95'', baud = [], raw = ''144.950 mhz''\<rparr>]"
    by code_simp
  have b: "bare_records ''144.950 mhz fm 7.05'' =
     [\<lparr>freq = ''144.95'', baud = [], raw = ''144.950''\<rparr>,
      \<lparr>freq = ''7.05'', baud = [], raw = ''7.05''\<rparr>]"
    by code_simp
  have "found_channels ''144.950 MHz FM 7.05'' =
     unit_records ''144.950 mhz fm 7.05'' @ bare_records ''144.950 mhz fm 7.05''"
    using bare_numbers_iff_context [of "''144.950 MHz FM 7.05''"] unfolding c using h by simp
  with u b show ?thesis by simp
qed

subsection \<open>The band\<close>

lemma to_mhz_str_band:
  assumes "to_mhz_str r u = Some s"
  shows "\<exists>v. in_band v \<and> s = fmt_mhz v \<and> (\<exists>w. float_of_str s = Some w \<and> in_band w)"
proof -
  from assms obtain v where v: "in_band v" "s = fmt_mhz v"
    by (auto simp: to_mhz_str_def Let_def split: if_splits option.splits)
  from v(1) obtain q where q: "v = Fin q" "1 / 2 \<le> q" "q \<le> 500"
    by (cases v) (simp_all add: in_band_def)
  define n where "n = round_half_even (q * 1000000)"
  have "0 \<le> q" using q(2) by simp
  from fmt_mhz_form [OF this] obtain A B where
    AB: "A \<noteq> []" "\<forall>c \<in> set A. is_digit c" "\<forall>c \<in> set B. is_digit c"
        "fmt_mhz (Fin q) = A @ (if B = [] then [] else CHR ''.'' # B)"
        "decimal A B = of_int n / 1000000"
    unfolding n_def by blast
  have "of_int 500000 \<le> q * 1000000" using q(2) by simp
  then have lo: "500000 \<le> n" unfolding n_def by (rule round_half_even_ge)
  have "q * 1000000 \<le> of_int 500000000" using q(3) by simp
  then have hi: "n \<le> 500000000" unfolding n_def by (rule round_half_even_le)
  have b1: "1 / 2 \<le> (of_int n :: rat) / 1000000"
  proof -
    have "(of_int 500000 :: rat) \<le> of_int n" using lo by (simp only: of_int_le_iff)
    then show ?thesis by simp
  qed
  have b2: "(of_int n :: rat) / 1000000 \<le> 500"
  proof -
    have "(of_int n :: rat) \<le> of_int 500000000" using hi by (simp only: of_int_le_iff)
    then show ?thesis by simp
  qed
  from to_double_band [OF b1 b2] obtain y where
    y: "to_double (of_int n / 1000000) = Fin y" "1 / 2 \<le> y" "y \<le> 500" by blast
  have "float_of_str s = Some (to_double (decimal A B))"
    unfolding v(2) q(1) AB(4) using AB(1,2,3) by (rule float_of_str_decimal)
  then have "float_of_str s = Some (Fin y)" using AB(5) y(1) by simp
  moreover have "in_band (Fin y)" using y(2,3) by (simp add: in_band_def)
  ultimately show ?thesis using v by blast
qed

lemma unit_loop_checked:
  "c \<in> set (unit_loop ch b ms acc) \<Longrightarrow> c \<in> set acc \<or> checked_freq c"
proof (induction ms arbitrary: acc)
  case Nil
  then show ?case by simp
next
  case (Cons m ms)
  show ?case
  proof (cases "to_mhz_str (group ch m 1) (Some (group ch m 2))")
    case None
    then show ?thesis using Cons.IH [of acc] Cons.prems by simp
  next
    case (Some mhz)
    show ?thesis
    proof (cases "mhz = []")
      case True
      then show ?thesis using Some Cons.IH [of acc] Cons.prems by simp
    next
      case False
      let ?r = "\<lparr>freq = mhz, baud = b, raw = group0 ch m\<rparr>"
      have "checked_freq ?r" unfolding checked_freq_def using Some by auto
      moreover have "c \<in> set (acc @ [?r]) \<or> checked_freq c"
        using Some False Cons.IH [of "acc @ [?r]"] Cons.prems by simp
      ultimately show ?thesis by auto
    qed
  qed
qed

lemma bare_loop_checked:
  "c \<in> set (bare_loop ch b ms acc) \<Longrightarrow> c \<in> set acc \<or> checked_freq c"
proof (induction ms arbitrary: acc)
  case Nil
  then show ?case by simp
next
  case (Cons m ms)
  show ?case
  proof (cases "before_of ch m = ''.'' \<or> after_of ch m = ''.''")
    case True
    then show ?thesis using Cons.IH [of acc] Cons.prems by simp
  next
    case skip: False
    show ?thesis
    proof (cases "to_mhz_str (group ch m 1) None")
      case None
      then show ?thesis using skip Cons.IH [of acc] Cons.prems by simp
    next
      case (Some mhz)
      show ?thesis
      proof (cases "mhz = []")
        case True
        then show ?thesis using skip Some Cons.IH [of acc] Cons.prems by simp
      next
        case False
        let ?r = "\<lparr>freq = mhz, baud = b, raw = group ch m 1\<rparr>"
        have "checked_freq ?r" unfolding checked_freq_def using Some by auto
        moreover have "c \<in> set (acc @ [?r]) \<or> checked_freq c"
          using skip Some False Cons.IH [of "acc @ [?r]"] Cons.prems by simp
        ultimately show ?thesis by auto
      qed
    qed
  qed
qed

lemma found_channels_checked: "c \<in> set (found_channels t) \<Longrightarrow> checked_freq c"
proof -
  assume "c \<in> set (found_channels t)"
  then obtain ch where "c \<in> set (unit_records ch) \<or> c \<in> set (bare_records ch)"
    unfolding found_channels_def chunk_loop_records [of _ "[]"] by (auto split: if_splits)
  then show ?thesis
    unfolding unit_records_def bare_records_def
    using unit_loop_checked [of c ch _ _ "[]"] bare_loop_checked [of c ch _ _ "[]"] by auto
qed

text \<open>
  C2. For every text, every record the channel extractor returns has as frequency the
  text \<^verbatim>\<open>_fmt_mhz\<close> writes for a value \<open>v\<close> that passed the test
  \<^verbatim>\<open>0.5 <= v <= 500.0\<close> (after the division by 1000 for kHz), and that text, read back
  by \<^verbatim>\<open>float\<close>, is a number in the same band.
\<close>

theorem extract_channels_in_band:
  "\<forall>c \<in> set (extract_channels t).
     \<exists>v. in_band v \<and> freq c = fmt_mhz v \<and> (\<exists>w. float_of_str (freq c) = Some w \<and> in_band w)"
proof
  fix c
  assume "c \<in> set (extract_channels t)"
  then have "c \<in> set (found_channels t)"
    unfolding extract_channels_def using dedupe_loop_subset by fastforce
  then have "checked_freq c" by (rule found_channels_checked)
  then obtain r u where "to_mhz_str r u = Some (freq c)" unfolding checked_freq_def by blast
  then show "\<exists>v. in_band v \<and> freq c = fmt_mhz v \<and> (\<exists>w. float_of_str (freq c) = Some w \<and> in_band w)"
    by (rule to_mhz_str_band)
qed

theorem extract_channels_in_band_witness:
  "extract_channels ''7052.75kHz USB 600.5 0.25'' = [\<lparr>freq = ''7.05275'', baud = [], raw = ''7052.75khz''\<rparr>] \<and>
   (\<exists>w. float_of_str ''7.05275'' = Some w \<and> in_band w)"
proof -
  have e: "extract_channels ''7052.75kHz USB 600.5 0.25'' = [\<lparr>freq = ''7.05275'', baud = [], raw = ''7052.75khz''\<rparr>]"
    by code_simp
  then show ?thesis
    using extract_channels_in_band [of "''7052.75kHz USB 600.5 0.25''"] by auto
qed

subsection \<open>De-duplication of the channels\<close>

text \<open>
  C5. For every text, the pairs \<^verbatim>\<open>(freq, baud)\<close> of the records returned are pairwise
  different, they are exactly the pairs of the candidates found in the text, and the
  records returned are the candidates whose pair of frequency and baud rate occurs at no
  earlier candidate, in the order of the candidates (chunks from left to right): a pair
  that occurs again adds no record, and two candidates that differ in the frequency or
  in the baud rate both give a record.
\<close>

theorem extract_channels_first_occurrences:
  "distinct (map (\<lambda>c. (freq c, baud c)) (extract_channels t)) \<and>
   set (map (\<lambda>c. (freq c, baud c)) (extract_channels t)) =
     set (map (\<lambda>c. (freq c, baud c)) (found_channels t)) \<and>
   extract_channels t =
     map (nth (found_channels t))
       (filter (\<lambda>i. \<forall>j<i. (freq (found_channels t ! j), baud (found_channels t ! j)) \<noteq>
                             (freq (found_channels t ! i), baud (found_channels t ! i)))
               [0..<length (found_channels t)])"
proof -
  have k: "channel_key = (\<lambda>c. (freq c, baud c))"
    by (simp add: fun_eq_iff channel_key_def)
  have f: "first_with_key (\<lambda>c. (freq c, baud c)) {} (found_channels t) =
      (\<lambda>i. \<forall>j<i. (freq (found_channels t ! j), baud (found_channels t ! j)) \<noteq>
                   (freq (found_channels t ! i), baud (found_channels t ! i)))"
    by (simp add: fun_eq_iff first_with_key_def)
  have e: "extract_channels t = dedupe_loop (\<lambda>c. (freq c, baud c)) (found_channels t) {} []"
    unfolding extract_channels_def k ..
  have "distinct (map (\<lambda>c. (freq c, baud c)) (extract_channels t))"
    unfolding e by (rule dedupe_loop_distinct)
  moreover have "set (map (\<lambda>c. (freq c, baud c)) (extract_channels t)) =
      set (map (\<lambda>c. (freq c, baud c)) (found_channels t))"
    unfolding e by (simp add: dedupe_loop_keys)
  moreover have "extract_channels t =
     map (nth (found_channels t))
       (filter (first_with_key (\<lambda>c. (freq c, baud c)) {} (found_channels t))
               [0..<length (found_channels t)])"
    unfolding e by (rule dedupe_loop_index)
  ultimately show ?thesis unfolding f by blast
qed

theorem extract_channels_first_occurrences_witness:
  "found_channels ''Port 1: 144.950MHz 1200 baud - Port 2: 144.950MHz 9600bd | 144.95 MHz 1200 bps | 432.5mhz 1200 baud'' =
     [\<lparr>freq = ''144.95'', baud = ''1200'', raw = ''144.950mhz''\<rparr>,
      \<lparr>freq = ''144.95'', baud = ''9600'', raw = ''144.950mhz''\<rparr>,
      \<lparr>freq = ''144.95'', baud = ''1200'', raw = ''144.95 mhz''\<rparr>,
      \<lparr>freq = ''432.5'', baud = ''1200'', raw = ''432.5mhz''\<rparr>] \<and>
   extract_channels ''Port 1: 144.950MHz 1200 baud - Port 2: 144.950MHz 9600bd | 144.95 MHz 1200 bps | 432.5mhz 1200 baud'' =
     [\<lparr>freq = ''144.95'', baud = ''1200'', raw = ''144.950mhz''\<rparr>,
      \<lparr>freq = ''144.95'', baud = ''9600'', raw = ''144.950mhz''\<rparr>,
      \<lparr>freq = ''432.5'', baud = ''1200'', raw = ''432.5mhz''\<rparr>]"
proof -
  let ?t = "''Port 1: 144.950MHz 1200 baud - Port 2: 144.950MHz 9600bd | 144.95 MHz 1200 bps | 432.5mhz 1200 baud''"
  let ?a = "\<lparr>freq = ''144.95'', baud = ''1200'', raw = ''144.950mhz''\<rparr>"
  let ?b = "\<lparr>freq = ''144.95'', baud = ''9600'', raw = ''144.950mhz''\<rparr>"
  let ?c = "\<lparr>freq = ''144.95'', baud = ''1200'', raw = ''144.95 mhz''\<rparr>"
  let ?d = "\<lparr>freq = ''432.5'', baud = ''1200'', raw = ''432.5mhz''\<rparr>"
  have f: "found_channels ?t = [?a, ?b, ?c, ?d]"
    by code_simp
  have "extract_channels ?t =
     map (nth (found_channels ?t))
       (filter (\<lambda>i. \<forall>j<i. (freq (found_channels ?t ! j), baud (found_channels ?t ! j)) \<noteq>
                             (freq (found_channels ?t ! i), baud (found_channels ?t ! i)))
               [0..<length (found_channels ?t)])"
    using extract_channels_first_occurrences [of ?t] by blast
  then have "extract_channels ?t = [?a, ?b, ?d]"
    unfolding f by (simp add: upt_rec All_less_Suc)
  with f show ?thesis by simp
qed

section \<open>The item builder\<close>

subsection \<open>The coordinates of a point\<close>

lemma first_truthy_two:
  "first_truthy (JDict d) [a, b] = Inr (or_else (dict_get d a) (dict_get d b))"
  by (simp add: py_get_def or_else_def)

lemma first_truthy_three:
  "first_truthy (JDict d) [a, b, c] = Inr (or_else (dict_get d a) (or_else (dict_get d b) (dict_get d c)))"
  by (simp add: py_get_def or_else_def)

lemma coordinate_own:
  "truthy (dict_get p own) \<Longrightarrow> coordinate p own props names = Inr (as_float (dict_get p own))"
  by (simp add: coordinate_def)

lemma point_step_dropped:
  assumes "lat_of p (or_else (dict_get p ''properties'') (JDict [])) = Inr la"
    and "lng_of p (or_else (dict_get p ''properties'') (JDict [])) = Inr lo"
    and "la = None \<or> lo = None"
  shows "point_step fs p n = Inr None"
  using assms unfolding point_step_def Let_def
  by (auto split: option.splits)

lemma as_float_not_nan: "as_float v = Some x \<Longrightarrow> x \<noteq> NaN"
  unfolding as_float_def
  by (cases v) (auto split: pyfloat.splits option.splits if_splits)

lemma make_item_coordinates:
  "item_lat (make_item n typ cs la lo dt) = la \<and> item_lng (make_item n typ cs la lo dt) = lo"
  by (simp add: make_item_def split: prod.splits)

lemma guess_type_str:
  "guess_type (JStr dt) =
     Inr (if contains (lower dt) ''bbs'' \<or> contains (lower dt) ''mailbox'' then ''bbs'' else ''node'')"
  by (simp add: guess_type_def or_else_def Let_def)

lemma point_step_kept:
  assumes "lat_of p (or_else (dict_get p ''properties'') (JDict [])) = Inr (Some la)"
    and "lng_of p (or_else (dict_get p ''properties'') (JDict [])) = Inr (Some lo)"
    and "callsign_of fs (or_else (dict_get p ''properties'') (JDict []))
           (or_else (dict_get p ''feature'') (JDict [])) = Inr cs"
    and "search False callsign_rx (upper cs) \<noteq> None"
    and "display_text_of (or_else (dict_get p ''feature'') (JDict [])) = Inr (JStr dt)"
  shows "point_step fs p n =
     Inr (Some (make_item n
        (if contains (lower dt) ''bbs'' \<or> contains (lower dt) ''mailbox'' then ''bbs'' else ''node'')
        cs la lo dt))"
  using assms unfolding point_step_def Let_def
  by (simp add: guess_type_str)

lemma point_step_item:
  assumes "point_step fs p n = Inr (Some it)"
  shows "lat_of p (or_else (dict_get p ''properties'') (JDict [])) = Inr (Some (item_lat it)) \<and>
         lng_of p (or_else (dict_get p ''properties'') (JDict [])) = Inr (Some (item_lng it))"
  using assms unfolding point_step_def Let_def
  by (auto simp: make_item_coordinates split: sum.splits option.splits if_splits json.splits)

text \<open>
  C6. Let the properties of a point be a dictionary (or absent, or empty), as the data
  model has them. Each coordinate is then \<^verbatim>\<open>_as_float\<close> of the point's own value when
  that value is truthy, whatever the properties hold, and of the first truthy property
  field otherwise, that is when the own value is absent, \<^verbatim>\<open>None\<close>, empty or 0: the
  latitude from \<^verbatim>\<open>lat\<close>, \<^verbatim>\<open>latitude\<close>, the longitude from \<^verbatim>\<open>lng\<close>, \<^verbatim>\<open>lon\<close>,
  \<^verbatim>\<open>longitude\<close>. Neither coordinate raises. A point for which one of them is \<^verbatim>\<open>None\<close>
  is skipped: the loop goes on with the next point, the items and the next identifier
  unchanged. An item that is built carries these two numbers as its \<^verbatim>\<open>lat\<close> and
  \<^verbatim>\<open>lng\<close>, and neither is NaN. And when both coordinates are numbers, the call sign is
  plausible and the display text is a string, the item is built with them and appended.
\<close>

theorem point_coordinates:
  fixes p :: "(string \<times> json) list" and d :: "(string \<times> json) list"
  defines "lat_value \<equiv> or_else (dict_get p ''lat'')
                          (or_else (dict_get d ''lat'') (dict_get d ''latitude''))"
    and "lng_value \<equiv> or_else (dict_get p ''lng'')
                          (or_else (dict_get d ''lng'')
                             (or_else (dict_get d ''lon'') (dict_get d ''longitude'')))"
    and "feature \<equiv> or_else (dict_get p ''feature'') (JDict [])"
  assumes props: "or_else (dict_get p ''properties'') (JDict []) = JDict d"
  shows
    "(\<forall>props. truthy (dict_get p ''lat'') \<longrightarrow> lat_of p props = Inr (as_float (dict_get p ''lat''))) \<and>
     (\<forall>props. truthy (dict_get p ''lng'') \<longrightarrow> lng_of p props = Inr (as_float (dict_get p ''lng''))) \<and>
     lat_of p (JDict d) = Inr (as_float lat_value) \<and>
     lng_of p (JDict d) = Inr (as_float lng_value) \<and>
     (as_float lat_value = None \<or> as_float lng_value = None \<longrightarrow>
        point_step fs p n = Inr None \<and>
        build_loop fs (p # ps) items n = build_loop fs ps items n) \<and>
     (\<forall>it. point_step fs p n = Inr (Some it) \<longrightarrow>
        as_float lat_value = Some (item_lat it) \<and> as_float lng_value = Some (item_lng it) \<and>
        item_lat it \<noteq> NaN \<and> item_lng it \<noteq> NaN) \<and>
     (\<forall>la lo cs dt.
        as_float lat_value = Some la \<and> as_float lng_value = Some lo \<and>
        callsign_of fs (JDict d) feature = Inr cs \<and>
        search False callsign_rx (upper cs) \<noteq> None \<and>
        display_text_of feature = Inr (JStr dt) \<longrightarrow>
        (\<exists>it. point_step fs p n = Inr (Some it) \<and> item_lat it = la \<and> item_lng it = lo \<and>
              build_loop fs (p # ps) items n = build_loop fs ps (items @ [it]) (n + 1)))"
proof -
  have lat: "lat_of p (JDict d) = Inr (as_float lat_value)"
    unfolding lat_of_def coordinate_def first_truthy_two lat_value_def by (simp add: or_else_def)
  have lng: "lng_of p (JDict d) = Inr (as_float lng_value)"
    unfolding lng_of_def coordinate_def first_truthy_three lng_value_def by (simp add: or_else_def)
  have own_lat: "\<forall>props. truthy (dict_get p ''lat'') \<longrightarrow> lat_of p props = Inr (as_float (dict_get p ''lat''))"
    unfolding lat_of_def by (simp add: coordinate_own)
  have own_lng: "\<forall>props. truthy (dict_get p ''lng'') \<longrightarrow> lng_of p props = Inr (as_float (dict_get p ''lng''))"
    unfolding lng_of_def by (simp add: coordinate_own)
  have dropped: "as_float lat_value = None \<or> as_float lng_value = None \<longrightarrow>
        point_step fs p n = Inr None \<and>
        build_loop fs (p # ps) items n = build_loop fs ps items n"
  proof
    assume none: "as_float lat_value = None \<or> as_float lng_value = None"
    have "point_step fs p n = Inr None"
      using point_step_dropped [of p "as_float lat_value" "as_float lng_value" fs n] lat lng none props
      by simp
    then show "point_step fs p n = Inr None \<and>
        build_loop fs (p # ps) items n = build_loop fs ps items n" by simp
  qed
  have item: "\<forall>it. point_step fs p n = Inr (Some it) \<longrightarrow>
        as_float lat_value = Some (item_lat it) \<and> as_float lng_value = Some (item_lng it) \<and>
        item_lat it \<noteq> NaN \<and> item_lng it \<noteq> NaN"
  proof (intro allI impI)
    fix it
    assume "point_step fs p n = Inr (Some it)"
    from point_step_item [OF this] have
      c: "as_float lat_value = Some (item_lat it)" "as_float lng_value = Some (item_lng it)"
      using lat lng props by simp_all
    with as_float_not_nan show "as_float lat_value = Some (item_lat it) \<and>
        as_float lng_value = Some (item_lng it) \<and>
        item_lat it \<noteq> NaN \<and> item_lng it \<noteq> NaN" by blast
  qed
  have kept: "\<forall>la lo cs dt.
        as_float lat_value = Some la \<and> as_float lng_value = Some lo \<and>
        callsign_of fs (JDict d) feature = Inr cs \<and>
        search False callsign_rx (upper cs) \<noteq> None \<and>
        display_text_of feature = Inr (JStr dt) \<longrightarrow>
        (\<exists>it. point_step fs p n = Inr (Some it) \<and> item_lat it = la \<and> item_lng it = lo \<and>
              build_loop fs (p # ps) items n = build_loop fs ps (items @ [it]) (n + 1))"
  proof (intro allI impI)
    fix la lo cs dt
    assume a: "as_float lat_value = Some la \<and> as_float lng_value = Some lo \<and>
        callsign_of fs (JDict d) feature = Inr cs \<and>
        search False callsign_rx (upper cs) \<noteq> None \<and>
        display_text_of feature = Inr (JStr dt)"
    let ?it = "make_item n
        (if contains (lower dt) ''bbs'' \<or> contains (lower dt) ''mailbox'' then ''bbs'' else ''node'')
        cs la lo dt"
    have s: "point_step fs p n = Inr (Some ?it)"
      using point_step_kept [of p la lo fs cs dt n] a lat lng props unfolding feature_def by simp
    then have "build_loop fs (p # ps) items n = build_loop fs ps (items @ [?it]) (n + 1)" by simp
    with s make_item_coordinates
    show "\<exists>it. point_step fs p n = Inr (Some it) \<and> item_lat it = la \<and> item_lng it = lo \<and>
              build_loop fs (p # ps) items n = build_loop fs ps (items @ [it]) (n + 1)"
      by blast
  qed
  from own_lat own_lng lat lng dropped item kept show ?thesis by blast
qed

theorem point_coordinates_witness:
  "(\<exists>it. point_step (\<lambda>v. [])
            [(''lat'', JStr ''51.5''), (''lng'', JFloat (Fin (- 1 / 8))),
             (''properties'', JDict [(''title'', JStr ''GB7XYZ''), (''lat'', JInt 10), (''lng'', JInt 20)]),
             (''feature'', JDict [(''displayText'', JStr ''node'')])] 1 = Inr (Some it) \<and>
         item_lat it = Fin (103 / 2) \<and> item_lng it = Fin (- 1 / 8)) \<and>
   (\<exists>it. point_step (\<lambda>v. [])
            [(''lat'', JInt 0), (''lng'', JFloat (Fin 0)),
             (''properties'', JDict [(''title'', JStr ''GB7XYZ''), (''latitude'', JStr ''51.5''),
                                     (''lon'', JInt 0), (''longitude'', JStr ''-2.25'')]),
             (''feature'', JDict [(''displayText'', JStr ''node'')])] 1 = Inr (Some it) \<and>
         item_lat it = Fin (103 / 2) \<and> item_lng it = Fin (- 9 / 4)) \<and>
   point_step (\<lambda>v. [])
     [(''lat'', JInt 0), (''lng'', JInt 1), (''properties'', JDict [(''title'', JStr ''GB7XYZ'')]),
      (''feature'', JDict [(''displayText'', JStr ''node'')])] 1 = Inr None"
proof -
  let ?f = "JDict [(''displayText'', JStr ''node'')]"
  let ?d1 = "[(''title'', JStr ''GB7XYZ''), (''lat'', JInt 10), (''lng'', JInt 20)]"
  let ?p1 = "[(''lat'', JStr ''51.5''), (''lng'', JFloat (Fin (- 1 / 8))), (''properties'', JDict ?d1), (''feature'', ?f)]"
  let ?d2 = "[(''title'', JStr ''GB7XYZ''), (''latitude'', JStr ''51.5''), (''lon'', JInt 0), (''longitude'', JStr ''-2.25'')]"
  let ?p2 = "[(''lat'', JInt 0), (''lng'', JFloat (Fin 0)), (''properties'', JDict ?d2), (''feature'', ?f)]"
  let ?d3 = "[(''title'', JStr ''GB7XYZ'')]"
  let ?p3 = "[(''lat'', JInt 0), (''lng'', JInt 1), (''properties'', JDict ?d3), (''feature'', ?f)]"
  have h1: "or_else (dict_get ?p1 ''properties'') (JDict []) = JDict ?d1" by code_simp
  have h2: "or_else (dict_get ?p2 ''properties'') (JDict []) = JDict ?d2" by code_simp
  have h3: "or_else (dict_get ?p3 ''properties'') (JDict []) = JDict ?d3" by code_simp
  have c1: "as_float (or_else (dict_get ?p1 ''lat'') (or_else (dict_get ?d1 ''lat'') (dict_get ?d1 ''latitude'')))
              = Some (Fin (103 / 2)) \<and>
            as_float (or_else (dict_get ?p1 ''lng'')
               (or_else (dict_get ?d1 ''lng'') (or_else (dict_get ?d1 ''lon'') (dict_get ?d1 ''longitude''))))
              = Some (Fin (- 1 / 8)) \<and>
            callsign_of (\<lambda>v. []) (JDict ?d1) (or_else (dict_get ?p1 ''feature'') (JDict [])) = Inr ''GB7XYZ'' \<and>
            search False callsign_rx (upper ''GB7XYZ'') \<noteq> None \<and>
            display_text_of (or_else (dict_get ?p1 ''feature'') (JDict [])) = Inr (JStr ''node'')"
    by code_simp
  have c2: "as_float (or_else (dict_get ?p2 ''lat'') (or_else (dict_get ?d2 ''lat'') (dict_get ?d2 ''latitude'')))
              = Some (Fin (103 / 2)) \<and>
            as_float (or_else (dict_get ?p2 ''lng'')
               (or_else (dict_get ?d2 ''lng'') (or_else (dict_get ?d2 ''lon'') (dict_get ?d2 ''longitude''))))
              = Some (Fin (- 9 / 4)) \<and>
            callsign_of (\<lambda>v. []) (JDict ?d2) (or_else (dict_get ?p2 ''feature'') (JDict [])) = Inr ''GB7XYZ'' \<and>
            search False callsign_rx (upper ''GB7XYZ'') \<noteq> None \<and>
            display_text_of (or_else (dict_get ?p2 ''feature'') (JDict [])) = Inr (JStr ''node'')"
    by code_simp
  have c3: "as_float (or_else (dict_get ?p3 ''lat'') (or_else (dict_get ?d3 ''lat'') (dict_get ?d3 ''latitude'')))
              = None"
    by code_simp
  have k1: "\<exists>it. point_step (\<lambda>v. []) ?p1 1 = Inr (Some it) \<and>
        item_lat it = Fin (103 / 2) \<and> item_lng it = Fin (- 1 / 8)"
    using point_coordinates [OF h1, of "\<lambda>v. []" 1 "[]" "[]"] c1 by blast
  have k2: "\<exists>it. point_step (\<lambda>v. []) ?p2 1 = Inr (Some it) \<and>
        item_lat it = Fin (103 / 2) \<and> item_lng it = Fin (- 9 / 4)"
    using point_coordinates [OF h2, of "\<lambda>v. []" 1 "[]" "[]"] c2 by blast
  have k3: "point_step (\<lambda>v. []) ?p3 1 = Inr None"
    using point_coordinates [OF h3, of "\<lambda>v. []" 1 "[]" "[]"] c3 by blast
  from k1 k2 k3 show ?thesis by blast
qed

subsection \<open>The identifiers\<close>

lemma point_step_id: "point_step fs p n = Inr (Some it) \<Longrightarrow> item_id it = n"
  unfolding point_step_def Let_def make_item_def
  by (auto split: sum.splits option.splits json.splits if_splits prod.splits)

lemma build_loop_ids:
  "build_loop fs ps items n = Inr r \<Longrightarrow>
     \<exists>new. r = items @ new \<and> map item_id new = map (\<lambda>i. n + int i) [0..<length new]"
proof (induction ps arbitrary: items n)
  case Nil
  then show ?case by simp
next
  case (Cons p ps)
  show ?case
  proof (cases "point_step fs p n")
    case (Inl e)
    then show ?thesis using Cons.prems by simp
  next
    case (Inr res)
    show ?thesis
    proof (cases res)
      case None
      then show ?thesis using Inr Cons.prems Cons.IH [of items n] by simp
    next
      case (Some it)
      then have "build_loop fs ps (items @ [it]) (n + 1) = Inr r"
        using Inr Cons.prems by simp
      from Cons.IH [OF this] obtain new where
        new: "r = (items @ [it]) @ new" "map item_id new = map (\<lambda>i. n + 1 + int i) [0..<length new]"
        by blast
      have id: "item_id it = n" using Inr Some point_step_id by blast
      have "[0..<length (it # new)] = 0 # map Suc [0..<length new]"
        by (simp add: upt_conv_Cons map_Suc_upt del: upt_Suc)
      then have "map item_id (it # new) = map (\<lambda>i. n + int i) [0..<length (it # new)]"
        using new(2) id by (simp add: comp_def add.assoc del: upt_Suc)
      with new(1) show ?thesis by (intro exI [of _ "it # new"]) simp
    qed
  qed
qed

lemma built_items_ids:
  "built_items fs points = Inr items \<Longrightarrow> map item_id items = map (\<lambda>i. int i + 1) [0..<length items]"
  unfolding built_items_def using build_loop_ids [of fs points "[]" 1 items]
  by (auto simp: add.commute)

lemma nth_built_item_id:
  "built_items fs points = Inr items \<Longrightarrow> i < length items \<Longrightarrow> item_id (items ! i) = int i + 1"
proof -
  assume a: "built_items fs points = Inr items" and i: "i < length items"
  have "item_id (items ! i) = map item_id items ! i" using i by simp
  also have "\<dots> = map (\<lambda>i. int i + 1) [0..<length items] ! i" using built_items_ids [OF a] by simp
  also have "\<dots> = int i + 1" using i by simp
  finally show ?thesis .
qed

text \<open>
  C7. When \<^verbatim>\<open>_build_items\<close> returns, the keys
  \<^verbatim>\<open>(callsign.upper(), round(lat, 5), round(lng, 5), type)\<close> of the items returned are
  pairwise different, they are the keys of the items built, and the items returned are
  the built items whose key occurs at no earlier built item, in the order in which they
  were built: a later item with the key of an earlier one is dropped, and two items
  that differ in the call sign, in a rounded coordinate or in the kind are both kept.
\<close>

theorem build_items_first_wins:
  assumes "build_items fs points = Inr r"
  shows "distinct (map (\<lambda>it. (upper (item_callsign it), round5 (item_lat it), round5 (item_lng it),
                               item_type it)) r) \<and>
         (\<exists>items. built_items fs points = Inr items \<and>
            set (map (\<lambda>it. (upper (item_callsign it), round5 (item_lat it), round5 (item_lng it),
                              item_type it)) r) =
            set (map (\<lambda>it. (upper (item_callsign it), round5 (item_lat it), round5 (item_lng it),
                              item_type it)) items) \<and>
            r = map (nth items)
                  (filter (\<lambda>i. \<forall>j<i.
                      (upper (item_callsign (items ! j)), round5 (item_lat (items ! j)),
                       round5 (item_lng (items ! j)), item_type (items ! j)) \<noteq>
                      (upper (item_callsign (items ! i)), round5 (item_lat (items ! i)),
                       round5 (item_lng (items ! i)), item_type (items ! i)))
                    [0..<length items]))"
proof -
  let ?K = "\<lambda>it. (upper (item_callsign it), round5 (item_lat it), round5 (item_lng it), item_type it)"
  have k: "item_key = ?K"
    by (simp add: fun_eq_iff item_key_def)
  from assms obtain items where
    items: "built_items fs points = Inr items" "r = dedupe_loop ?K items {} []"
    unfolding build_items_def k by (auto split: sum.splits)
  have f: "first_with_key ?K {} items = (\<lambda>i. \<forall>j<i. ?K (items ! j) \<noteq> ?K (items ! i))"
    by (simp add: fun_eq_iff first_with_key_def)
  have "distinct (map ?K r)" unfolding items(2) by (rule dedupe_loop_distinct)
  moreover have "set (map ?K r) = set (map ?K items)"
    unfolding items(2) by (simp add: dedupe_loop_keys)
  moreover have "r = map (nth items) (filter (first_with_key ?K {} items) [0..<length items])"
    unfolding items(2) by (rule dedupe_loop_index)
  ultimately show ?thesis using items(1) unfolding f by blast
qed

theorem build_items_first_wins_witness:
  "built_items (\<lambda>v. [])
     [feature_point (JFloat (Fin (103 / 2))) (JFloat (Fin (- 1 / 8))) ''GB7XYZ'' ''node'',
      feature_point (JFloat (Fin (103 / 2 + 1 / 1048576))) (JFloat (Fin (- 1 / 8))) ''gb7xyz'' ''the same node'',
      feature_point (JFloat (Fin (103 / 2))) (JFloat (Fin (- 1 / 8))) ''GB7XYZ'' ''mailbox'',
      feature_point (JFloat (Fin (103 / 2))) (JFloat (Fin (- 1 / 8))) ''GB7ABC'' ''node'',
      feature_point (JFloat (Fin (207 / 4))) (JFloat (Fin (- 1 / 8))) ''GB7XYZ'' ''node'',
      feature_point (JFloat (Fin (103 / 2))) (JFloat (Fin (- 1 / 4))) ''GB7XYZ'' ''node'']
   = Inr [make_item 1 ''node'' ''GB7XYZ'' (Fin (103 / 2)) (Fin (- 1 / 8)) ''node'',
          make_item 2 ''node'' ''gb7xyz'' (Fin (103 / 2 + 1 / 1048576)) (Fin (- 1 / 8)) ''the same node'',
          make_item 3 ''bbs'' ''GB7XYZ'' (Fin (103 / 2)) (Fin (- 1 / 8)) ''mailbox'',
          make_item 4 ''node'' ''GB7ABC'' (Fin (103 / 2)) (Fin (- 1 / 8)) ''node'',
          make_item 5 ''node'' ''GB7XYZ'' (Fin (207 / 4)) (Fin (- 1 / 8)) ''node'',
          make_item 6 ''node'' ''GB7XYZ'' (Fin (103 / 2)) (Fin (- 1 / 4)) ''node''] \<and>
   map (\<lambda>it. (upper (item_callsign it), round5 (item_lat it), round5 (item_lng it), item_type it))
       [make_item 1 ''node'' ''GB7XYZ'' (Fin (103 / 2)) (Fin (- 1 / 8)) ''node'',
        make_item 2 ''node'' ''gb7xyz'' (Fin (103 / 2 + 1 / 1048576)) (Fin (- 1 / 8)) ''the same node'',
        make_item 3 ''bbs'' ''GB7XYZ'' (Fin (103 / 2)) (Fin (- 1 / 8)) ''mailbox'',
        make_item 4 ''node'' ''GB7ABC'' (Fin (103 / 2)) (Fin (- 1 / 8)) ''node'',
        make_item 5 ''node'' ''GB7XYZ'' (Fin (207 / 4)) (Fin (- 1 / 8)) ''node'',
        make_item 6 ''node'' ''GB7XYZ'' (Fin (103 / 2)) (Fin (- 1 / 4)) ''node'']
   = [(''GB7XYZ'', Fin (103 / 2), Fin (- 1 / 8), ''node''),
      (''GB7XYZ'', Fin (103 / 2), Fin (- 1 / 8), ''node''),
      (''GB7XYZ'', Fin (103 / 2), Fin (- 1 / 8), ''bbs''),
      (''GB7ABC'', Fin (103 / 2), Fin (- 1 / 8), ''node''),
      (''GB7XYZ'', Fin (207 / 4), Fin (- 1 / 8), ''node''),
      (''GB7XYZ'', Fin (103 / 2), Fin (- 1 / 4), ''node'')] \<and>
   build_items (\<lambda>v. [])
     [feature_point (JFloat (Fin (103 / 2))) (JFloat (Fin (- 1 / 8))) ''GB7XYZ'' ''node'',
      feature_point (JFloat (Fin (103 / 2 + 1 / 1048576))) (JFloat (Fin (- 1 / 8))) ''gb7xyz'' ''the same node'',
      feature_point (JFloat (Fin (103 / 2))) (JFloat (Fin (- 1 / 8))) ''GB7XYZ'' ''mailbox'',
      feature_point (JFloat (Fin (103 / 2))) (JFloat (Fin (- 1 / 8))) ''GB7ABC'' ''node'',
      feature_point (JFloat (Fin (207 / 4))) (JFloat (Fin (- 1 / 8))) ''GB7XYZ'' ''node'',
      feature_point (JFloat (Fin (103 / 2))) (JFloat (Fin (- 1 / 4))) ''GB7XYZ'' ''node'']
   = Inr [make_item 1 ''node'' ''GB7XYZ'' (Fin (103 / 2)) (Fin (- 1 / 8)) ''node'',
          make_item 3 ''bbs'' ''GB7XYZ'' (Fin (103 / 2)) (Fin (- 1 / 8)) ''mailbox'',
          make_item 4 ''node'' ''GB7ABC'' (Fin (103 / 2)) (Fin (- 1 / 8)) ''node'',
          make_item 5 ''node'' ''GB7XYZ'' (Fin (207 / 4)) (Fin (- 1 / 8)) ''node'',
          make_item 6 ''node'' ''GB7XYZ'' (Fin (103 / 2)) (Fin (- 1 / 4)) ''node''] \<and>
   distinct (map (\<lambda>it. (upper (item_callsign it), round5 (item_lat it), round5 (item_lng it), item_type it))
     [make_item 1 ''node'' ''GB7XYZ'' (Fin (103 / 2)) (Fin (- 1 / 8)) ''node'',
      make_item 3 ''bbs'' ''GB7XYZ'' (Fin (103 / 2)) (Fin (- 1 / 8)) ''mailbox'',
      make_item 4 ''node'' ''GB7ABC'' (Fin (103 / 2)) (Fin (- 1 / 8)) ''node'',
      make_item 5 ''node'' ''GB7XYZ'' (Fin (207 / 4)) (Fin (- 1 / 8)) ''node'',
      make_item 6 ''node'' ''GB7XYZ'' (Fin (103 / 2)) (Fin (- 1 / 4)) ''node''])"
proof -
  let ?K = "\<lambda>it. (upper (item_callsign it), round5 (item_lat it), round5 (item_lng it), item_type it)"
  let ?ps = "[feature_point (JFloat (Fin (103 / 2))) (JFloat (Fin (- 1 / 8))) ''GB7XYZ'' ''node'',
      feature_point (JFloat (Fin (103 / 2 + 1 / 1048576))) (JFloat (Fin (- 1 / 8))) ''gb7xyz'' ''the same node'',
      feature_point (JFloat (Fin (103 / 2))) (JFloat (Fin (- 1 / 8))) ''GB7XYZ'' ''mailbox'',
      feature_point (JFloat (Fin (103 / 2))) (JFloat (Fin (- 1 / 8))) ''GB7ABC'' ''node'',
      feature_point (JFloat (Fin (207 / 4))) (JFloat (Fin (- 1 / 8))) ''GB7XYZ'' ''node'',
      feature_point (JFloat (Fin (103 / 2))) (JFloat (Fin (- 1 / 4))) ''GB7XYZ'' ''node'']"
  let ?a = "make_item 1 ''node'' ''GB7XYZ'' (Fin (103 / 2)) (Fin (- 1 / 8)) ''node''"
  let ?a' = "make_item 2 ''node'' ''gb7xyz'' (Fin (103 / 2 + 1 / 1048576)) (Fin (- 1 / 8)) ''the same node''"
  let ?b = "make_item 3 ''bbs'' ''GB7XYZ'' (Fin (103 / 2)) (Fin (- 1 / 8)) ''mailbox''"
  let ?c = "make_item 4 ''node'' ''GB7ABC'' (Fin (103 / 2)) (Fin (- 1 / 8)) ''node''"
  let ?d = "make_item 5 ''node'' ''GB7XYZ'' (Fin (207 / 4)) (Fin (- 1 / 8)) ''node''"
  let ?e = "make_item 6 ''node'' ''GB7XYZ'' (Fin (103 / 2)) (Fin (- 1 / 4)) ''node''"
  have built: "built_items (\<lambda>v. []) ?ps = Inr [?a, ?a', ?b, ?c, ?d, ?e]"
    by code_simp
  have keys: "map ?K [?a, ?a', ?b, ?c, ?d, ?e]
   = [(''GB7XYZ'', Fin (103 / 2), Fin (- 1 / 8), ''node''),
      (''GB7XYZ'', Fin (103 / 2), Fin (- 1 / 8), ''node''),
      (''GB7XYZ'', Fin (103 / 2), Fin (- 1 / 8), ''bbs''),
      (''GB7ABC'', Fin (103 / 2), Fin (- 1 / 8), ''node''),
      (''GB7XYZ'', Fin (207 / 4), Fin (- 1 / 8), ''node''),
      (''GB7XYZ'', Fin (103 / 2), Fin (- 1 / 4), ''node'')]"
    by code_simp
  have res: "build_items (\<lambda>v. []) ?ps = Inr [?a, ?b, ?c, ?d, ?e]"
    by code_simp
  from build_items_first_wins [OF res]
  have "distinct (map ?K [?a, ?b, ?c, ?d, ?e])" by blast
  with built keys res show ?thesis by blast
qed

lemma build_items_ids:
  "(build_items fs points = Inr r \<longrightarrow>
      sorted_wrt (<) (map item_id r) \<and>
      (\<exists>items. built_items fs points = Inr items \<and>
         map item_id items = map (\<lambda>i. int i + 1) [0..<length items] \<and>
         map item_id r = map (\<lambda>i. int i + 1) (filter (first_with_key item_key {} items) [0..<length items])))"
proof
  assume a: "build_items fs points = Inr r"
  then obtain items where
    items: "built_items fs points = Inr items" "r = dedupe_loop item_key items {} []"
    by (auto simp: build_items_def split: sum.splits)
  let ?ix = "filter (first_with_key item_key {} items) [0..<length items]"
  have r: "r = map (nth items) ?ix" unfolding items(2) by (rule dedupe_loop_index)
  have "map item_id r = map (\<lambda>i. item_id (items ! i)) ?ix" unfolding r by simp
  also have "\<dots> = map (\<lambda>i. int i + 1) ?ix"
    using nth_built_item_id [OF items(1)] by (intro map_cong) auto
  finally have ids: "map item_id r = map (\<lambda>i. int i + 1) ?ix" .
  have "sorted_wrt (<) ?ix" by (intro sorted_wrt_filter) simp
  then have "sorted_wrt (\<lambda>x y. int x + 1 < int y + 1) ?ix"
    by (rule sorted_wrt_mono_rel [rotated]) simp
  then have "sorted_wrt (<) (map (\<lambda>i. int i + 1) ?ix)"
    by (simp only: sorted_wrt_map)
  then have "sorted_wrt (<) (map item_id r)" using ids by simp
  with items(1) built_items_ids [OF items(1)] ids
  show "sorted_wrt (<) (map item_id r) \<and>
      (\<exists>items. built_items fs points = Inr items \<and>
         map item_id items = map (\<lambda>i. int i + 1) [0..<length items] \<and>
         map item_id r = map (\<lambda>i. int i + 1) (filter (first_with_key item_key {} items) [0..<length items]))"
    by blast
qed

text \<open>
  C10. When \<^verbatim>\<open>_build_items\<close> returns, the identifiers of the items returned increase
  strictly. The items built are numbered 1, 2, 3 and so on before the de-duplication,
  and an item returned keeps the number of its position among the items built, so every
  dropped duplicate leaves a gap: there are points for which the identifiers returned
  are 1 and 3.
\<close>

theorem build_items_ids_increase:
  "(build_items fs points = Inr r \<longrightarrow>
      sorted_wrt (<) (map item_id r) \<and>
      (\<exists>items. built_items fs points = Inr items \<and>
         map item_id items = map (\<lambda>i. int i + 1) [0..<length items] \<and>
         map item_id r = map (\<lambda>i. int i + 1) (filter (first_with_key item_key {} items) [0..<length items]))) \<and>
   (\<exists>points' r'. build_items fs points' = Inr r' \<and> map item_id r' = [1, 3])"
proof
  show "build_items fs points = Inr r \<longrightarrow>
      sorted_wrt (<) (map item_id r) \<and>
      (\<exists>items. built_items fs points = Inr items \<and>
         map item_id items = map (\<lambda>i. int i + 1) [0..<length items] \<and>
         map item_id r = map (\<lambda>i. int i + 1) (filter (first_with_key item_key {} items) [0..<length items]))"
    by (rule build_items_ids)
  let ?ps = "[feature_point (JInt 52) (JInt 1) ''GB7XYZ'' ''node'',
       feature_point (JInt 52) (JInt 1) ''GB7XYZ'' ''node'',
       feature_point (JInt 53) (JInt 1) ''GB7ABC'' ''mailbox'']"
  let ?r = "[make_item 1 ''node'' ''GB7XYZ'' (Fin 52) (Fin 1) ''node'',
             make_item 3 ''bbs'' ''GB7ABC'' (Fin 53) (Fin 1) ''mailbox'']"
  have "build_items fs ?ps = Inr ?r \<and> map item_id ?r = [1, 3]" by code_simp
  then show "\<exists>points' r'. build_items fs points' = Inr r' \<and> map item_id r' = [1, 3]"
    by (intro exI [of _ ?ps] exI [of _ ?r])
qed

theorem build_items_ids_increase_witness:
  "build_items (\<lambda>v. [])
     [feature_point (JInt 52) (JInt 1) ''GB7XYZ'' ''node'',
      feature_point (JInt 52) (JInt 1) ''GB7XYZ'' ''node'',
      feature_point (JInt 53) (JInt 1) ''GB7ABC'' ''mailbox'']
   = Inr [make_item 1 ''node'' ''GB7XYZ'' (Fin 52) (Fin 1) ''node'',
          make_item 3 ''bbs'' ''GB7ABC'' (Fin 53) (Fin 1) ''mailbox''] \<and>
   sorted_wrt (<) (map item_id [make_item 1 ''node'' ''GB7XYZ'' (Fin 52) (Fin 1) ''node'',
                                make_item 3 ''bbs'' ''GB7ABC'' (Fin 53) (Fin 1) ''mailbox''])"
proof -
  let ?ps = "[feature_point (JInt 52) (JInt 1) ''GB7XYZ'' ''node'',
       feature_point (JInt 52) (JInt 1) ''GB7XYZ'' ''node'',
       feature_point (JInt 53) (JInt 1) ''GB7ABC'' ''mailbox'']"
  let ?r = "[make_item 1 ''node'' ''GB7XYZ'' (Fin 52) (Fin 1) ''node'',
             make_item 3 ''bbs'' ''GB7ABC'' (Fin 53) (Fin 1) ''mailbox'']"
  have b: "build_items (\<lambda>v. []) ?ps = Inr ?r" by code_simp
  from build_items_ids_increase [of "\<lambda>v. []" ?ps ?r] b
  have "sorted_wrt (<) (map item_id ?r)" by blast
  with b show ?thesis by blast
qed

section \<open>The catalog emitter\<close>

text \<open>
  C8 fails on the code. A point whose display text is \<^verbatim>\<open>Bob's BBS\<close> gives an item with
  these notes; \<^verbatim>\<open>_js_escape\<close> leaves the single quote as it is, the emitter writes the
  notes between single quotes, and the literal written ends after \<^verbatim>\<open>Bob\<close>: read back,
  it is not the value of the field.
\<close>

theorem js_escape_leaves_quote:
  "build_items fs [feature_point (JInt 52) (JInt 1) ''GB7XYZ'' (''Bob'' @ quote @ ''s BBS'')]
     = Inr [make_item 1 ''bbs'' ''GB7XYZ'' (Fin 52) (Fin 1) (''Bob'' @ quote @ ''s BBS'')] \<and>
   item_notes (make_item 1 ''bbs'' ''GB7XYZ'' (Fin 52) (Fin 1) (''Bob'' @ quote @ ''s BBS''))
     = ''Bob'' @ quote @ ''s BBS'' \<and>
   js_escape (''Bob'' @ quote @ ''s BBS'') = ''Bob'' @ quote @ ''s BBS'' \<and>
   str_field ''notes'' (''Bob'' @ quote @ ''s BBS'') = ''    notes: '' @ quote @ ''Bob'' @ quote @ ''s BBS'' @ quote \<and>
   js_read_literal (quote @ js_escape (''Bob'' @ quote @ ''s BBS'') @ quote) = Some (''Bob'', ''s BBS'' @ quote)"
  by code_simp

section \<open>The endpoint resolver\<close>

lemma sorted_list_of_set_list:
  "set (sorted_list_of_set (set xs)) = set xs \<and> sorted (sorted_list_of_set (set xs :: string set))
     \<and> distinct (sorted_list_of_set (set xs))"
  by simp

text \<open>
  C9, as the code has it. For every page, \<^verbatim>\<open>_find_data_urls_from_html\<close> returns a
  sorted list without duplicates that holds \<^verbatim>\<open>DATA_URL\<close>, so it is never empty; when
  its pattern matches nowhere in the page, the list is \<^verbatim>\<open>DATA_URL\<close> alone. The scan of
  the discovery script finds no script, no endpoint and no URL in a page in which none
  of its three patterns matches, whatever the network returns.
\<close>

theorem find_data_urls_has_data_url:
  "find_data_urls_from_html html \<noteq> [] \<and>
   DATA_URL \<in> set (find_data_urls_from_html html) \<and>
   sorted (find_data_urls_from_html html) \<and>
   distinct (find_data_urls_from_html html) \<and>
   (findall True data_url_rx html = [] \<longrightarrow> find_data_urls_from_html html = [DATA_URL]) \<and>
   (finditer True script_rx html = [] \<and> finditer True endpoint_rx html = [] \<and>
    finditer True url_rx html = [] \<longrightarrow> discover_scan fetch html = ([], {}, {}))"
proof (intro conjI impI)
  let ?xs = "map (absolutize SOURCE_URL) (findall True data_url_rx html) @ [DATA_URL]"
  have s: "set (find_data_urls_from_html html) = set ?xs"
    unfolding find_data_urls_from_html_def using sorted_list_of_set_list [of ?xs] by blast
  then show d: "DATA_URL \<in> set (find_data_urls_from_html html)" by simp
  then show "find_data_urls_from_html html \<noteq> []" by auto
  show "sorted (find_data_urls_from_html html)"
    unfolding find_data_urls_from_html_def using sorted_list_of_set_list [of ?xs] by blast
  show "distinct (find_data_urls_from_html html)"
    unfolding find_data_urls_from_html_def using sorted_list_of_set_list [of ?xs] by blast
next
  assume "findall True data_url_rx html = []"
  then show "find_data_urls_from_html html = [DATA_URL]"
    by (simp add: find_data_urls_from_html_def)
next
  assume "finditer True script_rx html = [] \<and> finditer True endpoint_rx html = [] \<and>
    finditer True url_rx html = []"
  then show "discover_scan fetch html = ([], {}, {})"
    by (simp add: discover_scan_def scan_text_def)
qed

text \<open>
  The claim as the specification states it fails on a page without any match: the list
  returned is not empty.
\<close>

theorem find_data_urls_never_empty:
  "findall True data_url_rx ''<html><body>no map here</body></html>'' = [] \<and>
   find_data_urls_from_html ''<html><body>no map here</body></html>'' = [DATA_URL] \<and>
   find_data_urls_from_html ''<html><body>no map here</body></html>'' \<noteq> []"
  by code_simp

theorem find_data_urls_has_data_url_witness:
  "find_data_urls_from_html ''<html><body>no map here</body></html>'' = [DATA_URL] \<and>
   discover_scan (\<lambda>u. None) ''<html><body>no map here</body></html>'' = ([], {}, {})"
proof -
  let ?h = "''<html><body>no map here</body></html>''"
  have a: "findall True data_url_rx ?h = []" by code_simp
  have b: "finditer True script_rx ?h = [] \<and> finditer True endpoint_rx ?h = [] \<and>
    finditer True url_rx ?h = []" by code_simp
  from find_data_urls_has_data_url [of ?h "\<lambda>u. None"] a b show ?thesis by blast
qed

section \<open>The channel extractor on the two texts of the specification\<close>

text \<open>
  C3. For the text \<^verbatim>\<open>Port 1: 144.950MHz 1200 baud - Port 2: 432.500MHz 9600bd\<close> the
  channel extractor returns exactly two records, the first with the frequency
  \<^verbatim>\<open>144.95\<close> and the baud rate \<^verbatim>\<open>1200\<close>, the second with \<^verbatim>\<open>432.5\<close> and \<^verbatim>\<open>9600\<close>.
  (Each record also carries the matched text, in lower case.)
\<close>

theorem extract_channels_two_ports:
  "extract_channels ''Port 1: 144.950MHz 1200 baud - Port 2: 432.500MHz 9600bd'' =
     [\<lparr>freq = ''144.95'', baud = ''1200'', raw = ''144.950mhz''\<rparr>,
      \<lparr>freq = ''432.5'', baud = ''9600'', raw = ''432.500mhz''\<rparr>]"
  by code_simp

text \<open>
  C4. For the text \<^verbatim>\<open>7052.75kHz USB\<close> the channel extractor returns exactly one record:
  its frequency is \<^verbatim>\<open>7.05275\<close>, the kHz value divided by 1000 and written without
  trailing zeros, and its baud rate is empty.
\<close>

theorem extract_channels_khz_usb:
  "extract_channels ''7052.75kHz USB'' = [\<lparr>freq = ''7.05275'', baud = [], raw = ''7052.75khz''\<rparr>]"
  by code_simp

end
